theory Spec2Isabelle
  imports Main
begin

section \<open>Data model of \<open>usbmanager.ts\<close>\<close>

text \<open>
  JavaScript strings are modelled as \<^typ>\<open>string\<close>, one \<^typ>\<open>char\<close> per code unit
  below 256. The numeric identifiers of a USB device are non-negative integers
  and are modelled as \<^typ>\<open>nat\<close>; \<open>===\<close> on them is equality. A value that may be
  \<open>null\<close> or \<open>undefined\<close> is an \<^typ>\<open>'a option\<close>.
\<close>

record DeviceStrings =
  manufacturer :: "string option"
  product :: "string option"

record PTSerializableDeviceInfo = DeviceStrings +
  vendorId :: nat
  productId :: nat

text \<open>The \<open>deviceDescriptor\<close> of the library's \<open>Device\<close>; no other field is read.\<close>

record Device =
  idVendor :: nat
  idProduct :: nat

record VendorEntry =
  name :: string
  devices :: "string \<rightharpoonup> string"

type_synonym LinuxDeviceDatabase = "string \<rightharpoonup> VendorEntry"

text \<open>
  The three control-channel functions of the source are placeholders: the two
  commands only log, and \<open>QMPCheckIfDeviceExists\<close> logs and answers \<open>false\<close>.
  The commands are recorded in a trace. The answer of the existence check and
  the outcome of the \<open>lsusb\<close> child process belong to the host, which is a
  parameter of every operation:
  \<^item> \<open>qmpExists\<close> is the answer of \<open>QMPCheckIfDeviceExists\<close> (the source's
    placeholder is \<open>stubExists\<close> below);
  \<^item> \<open>execSync k cmd\<close> is the standard output of the \<open>k\<close>-th child process
    started by the manager, or \<open>None\<close> when \<open>execSync\<close> throws;
  \<^item> \<open>matchManufacturer out\<close> and \<open>matchProduct out\<close> are the first capture group
    of the library's regular-expression match of
    \<open>/^\s*iManufacturer\s+\d+\s+(.+)$/m\<close> and \<open>/^\s*iProduct\s+\d+\s+(.+)$/m\<close>
    on the output, or \<open>None\<close> when there is no match.
\<close>

datatype QMPCall = QMPAddDevice nat nat | QMPRemoveDevice nat nat

record Host =
  qmpExists :: "nat \<Rightarrow> nat \<Rightarrow> bool"
  execSync :: "nat \<Rightarrow> string \<Rightarrow> string option"
  matchManufacturer :: "string \<Rightarrow> string option"
  matchProduct :: "string \<Rightarrow> string option"

definition stubExists :: "nat \<Rightarrow> nat \<Rightarrow> bool" where
  "stubExists vid pid = False"

datatype Listener = OnAttach | OnDetach | OnGuestOnline

text \<open>
  One \<open>USBManager\<close> object: its fields (\<open>devicesRef\<close> is the field \<open>devices\<close>,
  renamed apart from the \<open>devices\<close> of a vendor entry), the two collaborators
  it owns (\<open>isOnline\<close> of \<open>Winboat\<close>, \<open>passedThroughDevices\<close> of
  \<open>WinboatConfig\<close>), the listeners it has registered, and what it has done to
  the outside: the trace of control-channel commands and the number of \<open>lsusb\<close>
  processes started.
\<close>

record USBManager =
  devicesRef :: "Device list"
  ptDevices :: "PTSerializableDeviceInfo list"
  linuxDeviceDatabase :: LinuxDeviceDatabase
  deviceStringCache :: "string \<rightharpoonup> DeviceStrings"
  isOnline :: bool
  passedThroughDevices :: "PTSerializableDeviceInfo list"
  listeners :: "Listener list"
  qmpLog :: "QMPCall list"
  lsusbCalls :: nat

datatype Error = StringsNotInCache string string | AlreadyInPassthroughList

section \<open>Identifiers as text\<close>

text \<open>\<open>n.toString(16)\<close> for a non-negative integer, and \<open>padStart(4, "0")\<close>.\<close>

definition hexDigit :: "nat \<Rightarrow> char" where
  "hexDigit d = ''0123456789abcdef'' ! d"

fun toString16 :: "nat \<Rightarrow> string" where
  "toString16 n =
     (if n < 16 then [hexDigit n] else toString16 (n div 16) @ [hexDigit (n mod 16)])"

declare toString16.simps [simp del]

definition padStart4 :: "string \<Rightarrow> string" where
  "padStart4 s = replicate (4 - length s) CHR ''0'' @ s"

definition hex4 :: "nat \<Rightarrow> string" where
  "hex4 n = padStart4 (toString16 n)"

definition cacheKey :: "string \<Rightarrow> string \<Rightarrow> string" where
  "cacheKey vendorIdHex productIdHex = vendorIdHex @ '':'' @ productIdHex"

section \<open>The passthrough record store\<close>

definition convertDeviceToPTSerializable ::
    "Device \<Rightarrow> USBManager \<Rightarrow> Error + PTSerializableDeviceInfo" where
  "convertDeviceToPTSerializable device m =
     (let productIdHex = hex4 (idProduct device);
          vendorIdHex = hex4 (idVendor device)
      in case deviceStringCache m (cacheKey vendorIdHex productIdHex) of
           None \<Rightarrow> Inl (StringsNotInCache vendorIdHex productIdHex)
         | Some deviceStrings \<Rightarrow>
             Inr \<lparr>manufacturer = manufacturer deviceStrings,
                  product = product deviceStrings,
                  vendorId = idVendor device,
                  productId = idProduct device\<rparr>)"

definition QMPCheckIfDeviceExists :: "Host \<Rightarrow> nat \<Rightarrow> nat \<Rightarrow> bool" where
  "QMPCheckIfDeviceExists h vid pid = qmpExists h vid pid"

definition qmpAdd :: "nat \<Rightarrow> nat \<Rightarrow> USBManager \<Rightarrow> USBManager" where
  "qmpAdd vid pid m = m\<lparr>qmpLog := qmpLog m @ [QMPAddDevice vid pid]\<rparr>"

definition qmpRemove :: "nat \<Rightarrow> nat \<Rightarrow> USBManager \<Rightarrow> USBManager" where
  "qmpRemove vid pid m = m\<lparr>qmpLog := qmpLog m @ [QMPRemoveDevice vid pid]\<rparr>"

text \<open>
  An operation that can throw returns the error, if any, together with the
  manager as it is when the operation returns or throws.
\<close>

definition addDeviceToPassthroughList ::
    "Host \<Rightarrow> Device \<Rightarrow> USBManager \<Rightarrow> Error option \<times> USBManager" where
  "addDeviceToPassthroughList h device m =
     (case convertDeviceToPTSerializable device m of
        Inl e \<Rightarrow> (Some e, m)
      | Inr ptDevice \<Rightarrow>
          (case find (\<lambda>d. vendorId d = vendorId ptDevice \<and> productId d = productId ptDevice)
                  (passedThroughDevices m) of
             Some d \<Rightarrow> (Some AlreadyInPassthroughList, m)
           | None \<Rightarrow>
               (let m1 = m\<lparr>passedThroughDevices := passedThroughDevices m @ [ptDevice]\<rparr>;
                    m2 = m1\<lparr>ptDevices := passedThroughDevices m1\<rparr>;
                    m3 = (if \<not> QMPCheckIfDeviceExists h (vendorId ptDevice) (productId ptDevice)
                          then qmpAdd (vendorId ptDevice) (productId ptDevice) m2
                          else m2)
                in (None, m3))))"

definition removeDeviceFromPassthroughList ::
    "Host \<Rightarrow> PTSerializableDeviceInfo \<Rightarrow> USBManager \<Rightarrow> USBManager" where
  "removeDeviceFromPassthroughList h ptDevice m =
     (let m1 = m\<lparr>passedThroughDevices :=
                   filter (\<lambda>d. vendorId d \<noteq> vendorId ptDevice \<and> productId d \<noteq> productId ptDevice)
                     (passedThroughDevices m)\<rparr>;
          m2 = m1\<lparr>ptDevices := passedThroughDevices m1\<rparr>
      in if QMPCheckIfDeviceExists h (vendorId ptDevice) (productId ptDevice)
         then qmpRemove (vendorId ptDevice) (productId ptDevice) m2
         else m2)"

definition isDeviceInPassthroughList :: "Device \<Rightarrow> USBManager \<Rightarrow> Error + bool" where
  "isDeviceInPassthroughList device m =
     (case convertDeviceToPTSerializable device m of
        Inl e \<Rightarrow> Inl e
      | Inr ptDevice \<Rightarrow>
          Inr (list_ex (\<lambda>d. vendorId d = vendorId ptDevice \<and> productId d = productId ptDevice)
                 (passedThroughDevices m)))"

definition isPTDeviceConnected :: "PTSerializableDeviceInfo \<Rightarrow> USBManager \<Rightarrow> bool" where
  "isPTDeviceConnected ptDevice m =
     list_ex (\<lambda>d. idVendor d = vendorId ptDevice \<and> idProduct d = productId ptDevice)
       (devicesRef m)"

section \<open>The device string resolver\<close>

text \<open>
  White space as \<open>\s\<close> and \<open>trim()\<close> see it, among the code units below 256:
  tab, line feed, vertical tab, form feed, carriage return, space and no-break
  space. The line terminators, which \<open>.\<close> does not match, are line feed and
  carriage return.
\<close>

definition isWhiteSpace :: "char \<Rightarrow> bool" where
  "isWhiteSpace c =
     (c = CHR 0x09 \<or> c = CHR 0x0A \<or> c = CHR 0x0B \<or> c = CHR 0x0C \<or> c = CHR 0x0D
      \<or> c = CHR 0x20 \<or> c = CHR 0xA0)"

definition isLineTerminator :: "char \<Rightarrow> bool" where
  "isLineTerminator c = (c = CHR 0x0A \<or> c = CHR 0x0D)"

definition trim :: "string \<Rightarrow> string" where
  "trim s = rev (dropWhile isWhiteSpace (rev (dropWhile isWhiteSpace s)))"

text \<open>
  \<open>getDeviceStringsFromLsusb\<close>: one child process; its failure is caught here
  and gives two \<open>null\<close> fields.
\<close>

definition lsusbCommand :: "string \<Rightarrow> string \<Rightarrow> string" where
  "lsusbCommand vidHex pidHex = ''lsusb -d '' @ vidHex @ '':'' @ pidHex @ '' -v 2>/dev/null''"

definition getDeviceStringsFromLsusb ::
    "Host \<Rightarrow> string \<Rightarrow> string \<Rightarrow> USBManager \<Rightarrow> DeviceStrings \<times> USBManager" where
  "getDeviceStringsFromLsusb h vidHex pidHex m =
     (let m' = m\<lparr>lsusbCalls := Suc (lsusbCalls m)\<rparr>
      in case execSync h (lsusbCalls m) (lsusbCommand vidHex pidHex) of
           None \<Rightarrow> (\<lparr>manufacturer = None, product = None\<rparr>, m')
         | Some lsusbOutput \<Rightarrow>
             (\<lparr>manufacturer = map_option trim (matchManufacturer h lsusbOutput),
               product = map_option trim (matchProduct h lsusbOutput)\<rparr>, m'))"

text \<open>
  Truthiness of a string that may be \<open>null\<close> or \<open>undefined\<close>; \<open>v || d\<close> for a
  string \<open>d\<close>; \<open>v || null\<close>.
\<close>

definition truthy :: "string option \<Rightarrow> bool" where
  "truthy v = (case v of None \<Rightarrow> False | Some s \<Rightarrow> s \<noteq> [])"

definition orElse :: "string option \<Rightarrow> string \<Rightarrow> string" where
  "orElse v d = (case v of None \<Rightarrow> d | Some s \<Rightarrow> if s = [] then d else s)"

definition orNull :: "string option \<Rightarrow> string option" where
  "orNull v = (case v of None \<Rightarrow> None | Some s \<Rightarrow> if s = [] then None else Some s)"

definition formatDevice :: "string \<Rightarrow> string \<Rightarrow> string \<Rightarrow> string \<Rightarrow> string" where
  "formatDevice vendorIdHex productIdHex v p =
     ''['' @ vendorIdHex @ '':'' @ productIdHex @ ''] '' @ v @ '' | '' @ p"

text \<open>
  \<open>stringifyDevice\<close>. Nothing inside its \<open>try\<close> block can throw, since
  \<open>getDeviceStringsFromLsusb\<close> catches the failure of the child process itself;
  the \<open>catch\<close> block therefore has no branch here.
\<close>

definition stringifyDevice :: "Host \<Rightarrow> Device \<Rightarrow> USBManager \<Rightarrow> string \<times> USBManager" where
  "stringifyDevice h device m =
     (let vendorIdHex = hex4 (idVendor device);
          productIdHex = hex4 (idProduct device);
          key = cacheKey vendorIdHex productIdHex
      in case deviceStringCache m key of
           Some cached \<Rightarrow>
             (formatDevice vendorIdHex productIdHex
                (orElse (manufacturer cached) ''Unknown Vendor'')
                (orElse (product cached) ''Unknown Product''), m)
         | None \<Rightarrow>
             (let vendor0 = linuxDeviceDatabase m vendorIdHex;
                  product0 = (case vendor0 of None \<Rightarrow> None | Some v \<Rightarrow> devices v productIdHex);
                  (product1, m1) =
                    (if \<not> truthy product0
                     then (let (deviceStrings, m') =
                                 getDeviceStringsFromLsusb h vendorIdHex productIdHex m
                           in (product deviceStrings, m'))
                     else (product0, m));
                  (vendor1, m2) =
                    (if \<not> truthy (map_option name vendor0)
                     then (let (deviceStrings, m') =
                                 getDeviceStringsFromLsusb h vendorIdHex productIdHex m1
                           in (case manufacturer deviceStrings of
                                 None \<Rightarrow> (vendor0, m')
                               | Some s \<Rightarrow>
                                   if s = [] then (vendor0, m')
                                   else (Some \<lparr>name = s, devices = Map.empty\<rparr>, m')))
                     else (vendor0, m1));
                  m3 = m2\<lparr>deviceStringCache := (deviceStringCache m2)
                          (key \<mapsto> \<lparr>manufacturer = orNull (map_option name vendor1),
                                   product = orNull product1\<rparr>)\<rparr>
              in (formatDevice vendorIdHex productIdHex
                    (case vendor1 of None \<Rightarrow> ''Unknown Vendor'' | Some v \<Rightarrow> name v)
                    (orElse product1 ''Unknown Product''), m3)))"

definition stringifyPTSerializableDevice :: "PTSerializableDeviceInfo \<Rightarrow> string" where
  "stringifyPTSerializableDevice device =
     formatDevice (hex4 (vendorId device)) (hex4 (productId device))
       (orElse (manufacturer device) ''Unknown Vendor'')
       (orElse (product device) ''Unknown Product'')"

section \<open>Hotplug events and the guest-online sweep\<close>

text \<open>
  The attach and detach handlers. \<open>deviceList\<close> is what \<open>getDeviceList()\<close>
  returns when the event is handled. \<open>&&\<close> evaluates its right operand only
  when the left one is true. Were \<open>isDeviceInPassthroughList\<close> to throw, the
  handler would stop there.
\<close>

definition onAttach :: "Host \<Rightarrow> Device list \<Rightarrow> Device \<Rightarrow> USBManager \<Rightarrow> USBManager" where
  "onAttach h deviceList device m =
     (let m1 = m\<lparr>devicesRef := deviceList\<rparr>;
          (logged, m2) = stringifyDevice h device m1
      in if isOnline m2
         then (case isDeviceInPassthroughList device m2 of
                 Inl e \<Rightarrow> m2
               | Inr inList \<Rightarrow>
                   if inList \<and> \<not> QMPCheckIfDeviceExists h (idVendor device) (idProduct device)
                   then (let (logged', m3) = stringifyDevice h device m2
                         in qmpAdd (idVendor device) (idProduct device) m3)
                   else m2)
         else m2)"

definition onDetach :: "Host \<Rightarrow> Device list \<Rightarrow> Device \<Rightarrow> USBManager \<Rightarrow> USBManager" where
  "onDetach h deviceList device m =
     (let m1 = m\<lparr>devicesRef := deviceList\<rparr>;
          (logged, m2) = stringifyDevice h device m1
      in if isOnline m2
         then (case isDeviceInPassthroughList device m2 of
                 Inl e \<Rightarrow> m2
               | Inr inList \<Rightarrow>
                   if inList \<and> QMPCheckIfDeviceExists h (idVendor device) (idProduct device)
                   then (let (logged', m3) = stringifyDevice h device m2
                         in qmpRemove (idVendor device) (idProduct device) m3)
                   else m2)
         else m2)"

text \<open>The body of the \<open>for\<close> loop of the guest-online callback, and the callback.\<close>

fun passThroughConnected ::
    "Host \<Rightarrow> PTSerializableDeviceInfo list \<Rightarrow> USBManager \<Rightarrow> USBManager" where
  "passThroughConnected h [] m = m"
| "passThroughConnected h (ptDevice # rest) m =
     passThroughConnected h rest
       (if isPTDeviceConnected ptDevice m
           \<and> \<not> QMPCheckIfDeviceExists h (vendorId ptDevice) (productId ptDevice)
        then qmpAdd (vendorId ptDevice) (productId ptDevice) m
        else m)"

definition guestOnlineCallback :: "Host \<Rightarrow> bool \<Rightarrow> USBManager \<Rightarrow> USBManager" where
  "guestOnlineCallback h online m =
     (if \<not> online then m else passThroughConnected h (passedThroughDevices m) m)"

definition setupUpdateListeners :: "USBManager \<Rightarrow> USBManager" where
  "setupUpdateListeners m = m\<lparr>listeners := listeners m @ [OnAttach, OnDetach]\<rparr>"

definition setupGuestOnlineListener :: "USBManager \<Rightarrow> USBManager" where
  "setupGuestOnlineListener m = m\<lparr>listeners := listeners m @ [OnGuestOnline]\<rparr>"

section \<open>The vendor and product name database\<close>

text \<open>\<open>content.split("\n")\<close>: the pieces between line feeds; the empty text has one piece.\<close>

fun splitLines :: "string \<Rightarrow> string list" where
  "splitLines [] = [[]]"
| "splitLines (c # cs) =
     (if c = CHR 0x0A then [] # splitLines cs
      else (case splitLines cs of [] \<Rightarrow> [[c]] | l # ls \<Rightarrow> (c # l) # ls))"

text \<open>\<open>[0-9a-f]\<close> under the flag \<open>i\<close>, and \<open>toLowerCase()\<close> on the letters A to Z.\<close>

definition isHexDigit :: "char \<Rightarrow> bool" where
  "isHexDigit c =
     (let n = (of_char c :: nat)
      in (48 \<le> n \<and> n \<le> 57) \<or> (97 \<le> n \<and> n \<le> 102) \<or> (65 \<le> n \<and> n \<le> 70))"

definition toLowerCaseChar :: "char \<Rightarrow> char" where
  "toLowerCaseChar c =
     (let n = (of_char c :: nat) in if 65 \<le> n \<and> n \<le> 90 then char_of (n + 32) else c)"

definition toLowerCase :: "string \<Rightarrow> string" where
  "toLowerCase s = map toLowerCaseChar s"

text \<open>
  The tail \<open>\s+(.+)$\<close> of both patterns, matched against the rest of a line
  the way a backtracking matcher does: \<open>\s+\<close> first takes the whole leading run
  of white space and gives characters back one at a time, down to one, until
  \<open>(.+)$\<close> matches what is left, which it does when that is not empty and holds
  no line terminator. The result is the capture group.
\<close>

fun captureAfterSpaces :: "nat \<Rightarrow> string \<Rightarrow> string option" where
  "captureAfterSpaces 0 s = None"
| "captureAfterSpaces (Suc k) s =
     (let r = drop (Suc k) s
      in if r \<noteq> [] \<and> \<not> list_ex isLineTerminator r then Some r
         else captureAfterSpaces k s)"

definition matchSpacesName :: "string \<Rightarrow> string option" where
  "matchSpacesName s = captureAfterSpaces (length (takeWhile isWhiteSpace s)) s"

text \<open>
  \<open>line.match(/^([0-9a-f]{4})\s+(.+)$/i)\<close> and
  \<open>line.match(/^\t([0-9a-f]{4})\s+(.+)$/i)\<close>: the two capture groups, or \<open>None\<close>.
\<close>

definition matchVendorLine :: "string \<Rightarrow> (string \<times> string) option" where
  "matchVendorLine line =
     (if length (take 4 line) = 4 \<and> list_all isHexDigit (take 4 line)
      then map_option (\<lambda>n. (take 4 line, n)) (matchSpacesName (drop 4 line))
      else None)"

definition matchDeviceLine :: "string \<Rightarrow> (string \<times> string) option" where
  "matchDeviceLine line =
     (case line of
        [] \<Rightarrow> None
      | c # rest \<Rightarrow> if c = CHR 0x09 then matchVendorLine rest else None)"

definition startsWithHash :: "string \<Rightarrow> bool" where
  "startsWithHash line = (case line of [] \<Rightarrow> False | c # rest \<Rightarrow> c = CHR ''#'')"

text \<open>\<open>line[i]\<close>, \<open>undefined\<close> beyond the end.\<close>

definition charAt :: "string \<Rightarrow> nat \<Rightarrow> char option" where
  "charAt line i = (if i < length line then Some (line ! i) else None)"

record LoaderState =
  vendors :: LinuxDeviceDatabase
  currentVendor :: "string option"

text \<open>
  One iteration of the loop of \<open>readLinuxDeviceDatabase\<close>. The assignment
  \<open>vendors[currentVendor].devices[...] = ...\<close> reads \<open>vendors[currentVendor]\<close>,
  which is there whenever \<open>currentVendor\<close> is set (lemma
  \<open>loader_current_in_vendors\<close>); the branch for its absence leaves the state as
  it is.
\<close>

definition loaderStep :: "string \<Rightarrow> LoaderState \<Rightarrow> LoaderState" where
  "loaderStep line st =
     (if startsWithHash line \<or> trim line = [] then st
      else if charAt line 0 \<noteq> Some (CHR 0x09) then
        (case matchVendorLine line of
           None \<Rightarrow> st
         | Some (m1, m2) \<Rightarrow>
             st\<lparr>currentVendor := Some (toLowerCase m1),
                vendors := (vendors st)
                  (toLowerCase m1 \<mapsto> \<lparr>name = trim m2, devices = Map.empty\<rparr>)\<rparr>)
      else if charAt line 0 = Some (CHR 0x09) \<and> charAt line 1 \<noteq> Some (CHR 0x09) then
        (case matchDeviceLine line of
           None \<Rightarrow> st
         | Some (m1, m2) \<Rightarrow>
             (case currentVendor st of
                None \<Rightarrow> st
              | Some cv \<Rightarrow>
                  if cv = [] then st
                  else (case vendors st cv of
                          None \<Rightarrow> st
                        | Some v \<Rightarrow>
                            st\<lparr>vendors := (vendors st)
                              (cv \<mapsto> v\<lparr>devices := (devices v)(toLowerCase m1 \<mapsto> trim m2)\<rparr>)\<rparr>)))
      else st)"

definition readLinuxDeviceDatabase :: "string \<Rightarrow> LinuxDeviceDatabase" where
  "readLinuxDeviceDatabase content =
     vendors (fold loaderStep (splitLines content) \<lparr>vendors = Map.empty, currentVendor = None\<rparr>)"

section \<open>Construction and event delivery\<close>

text \<open>
  The constructor, for a readable database file with the given content (were
  the file unreadable, \<open>readFileSync\<close> would throw and there would be no
  manager). \<open>deviceList\<close> is what \<open>getDeviceList()\<close> returns, \<open>online\<close> the
  guest's status and \<open>config\<close> the stored passthrough list at that moment.
  The constructor ends with \<open>#setupUpdateListeners()\<close>; it does not call
  \<open>#setupGuestOnlineListener()\<close>, and nothing else does.
\<close>

definition initialManager :: "bool \<Rightarrow> PTSerializableDeviceInfo list \<Rightarrow> USBManager" where
  "initialManager online config =
     \<lparr>devicesRef = [], ptDevices = [], linuxDeviceDatabase = Map.empty,
      deviceStringCache = Map.empty, isOnline = online, passedThroughDevices = config,
      listeners = [], qmpLog = [], lsusbCalls = 0\<rparr>"

fun stringifyEach :: "Host \<Rightarrow> Device list \<Rightarrow> USBManager \<Rightarrow> USBManager" where
  "stringifyEach h [] m = m"
| "stringifyEach h (d # ds) m = stringifyEach h ds (snd (stringifyDevice h d m))"

definition newUSBManager ::
    "Host \<Rightarrow> string \<Rightarrow> Device list \<Rightarrow> bool \<Rightarrow> PTSerializableDeviceInfo list \<Rightarrow> USBManager" where
  "newUSBManager h content deviceList online config =
     (let m0 = initialManager online config;
          m1 = m0\<lparr>linuxDeviceDatabase := readLinuxDeviceDatabase content\<rparr>;
          m2 = m1\<lparr>devicesRef := deviceList\<rparr>;
          m3 = stringifyEach h (devicesRef m2) m2;
          m4 = m3\<lparr>ptDevices := passedThroughDevices m3\<rparr>
      in setupUpdateListeners m4)"

text \<open>
  Delivery of an event to the registered listeners, in registration order. A
  change of the guest's status is delivered to the watchers of \<open>isOnline\<close>, and
  only when the value really changes.
\<close>

datatype Event = Attach "Device list" Device | Detach "Device list" Device | GuestOnline bool

fun notify :: "Host \<Rightarrow> Event \<Rightarrow> Listener \<Rightarrow> USBManager \<Rightarrow> USBManager" where
  "notify h (Attach deviceList d) OnAttach m = onAttach h deviceList d m"
| "notify h (Detach deviceList d) OnDetach m = onDetach h deviceList d m"
| "notify h (GuestOnline b) OnGuestOnline m = guestOnlineCallback h b m"
| "notify h ev l m = m"

definition emit :: "Host \<Rightarrow> Event \<Rightarrow> USBManager \<Rightarrow> USBManager" where
  "emit h ev m = fold (notify h ev) (listeners m) m"

definition setOnline :: "Host \<Rightarrow> bool \<Rightarrow> USBManager \<Rightarrow> USBManager" where
  "setOnline h b m =
     (if isOnline m = b then m else emit h (GuestOnline b) (m\<lparr>isOnline := b\<rparr>))"

text \<open>Everything that can happen to a manager after its construction.\<close>

datatype Action =
    Stringify Device
  | AddDevice Device
  | RemoveDevice PTSerializableDeviceInfo
  | Plug "Device list" Device
  | Unplug "Device list" Device
  | SetOnline bool

fun perform :: "Host \<Rightarrow> Action \<Rightarrow> USBManager \<Rightarrow> USBManager" where
  "perform h (Stringify d) m = snd (stringifyDevice h d m)"
| "perform h (AddDevice d) m = snd (addDeviceToPassthroughList h d m)"
| "perform h (RemoveDevice r) m = removeDeviceFromPassthroughList h r m"
| "perform h (Plug deviceList d) m = emit h (Attach deviceList d) m"
| "perform h (Unplug deviceList d) m = emit h (Detach deviceList d) m"
| "perform h (SetOnline b) m = setOnline h b m"

text \<open>
  A run: each step with the host as it is at that step, so that the answers of
  the control channel and of \<open>lsusb\<close> may change from step to step.
\<close>

definition performAll :: "(Host \<times> Action) list \<Rightarrow> USBManager \<Rightarrow> USBManager" where
  "performAll steps m = fold (\<lambda>(h, a). perform h a) steps m"

section \<open>The parsing rule of the specification\<close>

text \<open>
  The rule of the specification for the database text, written from its
  words and not from the loader: every line is either ignored, or opens a
  vendor section, or is a product of the most recently opened section.

  \<^item> A line that begins with \<open>#\<close>, a blank line and a line indented by two or
    more tabs are ignored.
  \<^item> A non-indented line `token, white space, name' opens a new vendor section.
  \<^item> A line indented by exactly one tab, then `token, white space, name', is a
    product of the most recently opened section.
  \<^item> Any other line is malformed and ignored.

  The token is four hexadecimal digits, kept in lower case; the name is the
  rest of the line without the white space around it. What counts as a name
  after the white space is the parameter \<open>okName\<close>: the specification asks for
  a name and does not say what a name is, so any text of at least one
  character counts (\<open>specName\<close>); \<open>lineName\<close> asks in addition that no
  character of it is a line terminator, which within a line, where there is
  no line feed, means that none is a carriage return.
\<close>

datatype Entry = VendorLine string string | ProductLine string string


definition lineName :: "string \<Rightarrow> bool" where
  "lineName n = (n \<noteq> [] \<and> \<not> list_ex isLineTerminator n)"

definition tokenAndName :: "(string \<Rightarrow> bool) \<Rightarrow> string \<Rightarrow> (string \<times> string) option" where
  "tokenAndName okName s =
     (let token = take 4 s; rest = drop 4 s
      in if length token = 4 \<and> list_all isHexDigit token
            \<and> list_ex (\<lambda>k. list_all isWhiteSpace (take k rest) \<and> okName (drop k rest))
                 [1 ..< Suc (length rest)]
         then Some (toLowerCase token, trim rest)
         else None)"

definition classify :: "(string \<Rightarrow> bool) \<Rightarrow> string \<Rightarrow> Entry option" where
  "classify okName line =
     (if startsWithHash line \<or> list_all isWhiteSpace line
         \<or> take 2 line = [CHR 0x09, CHR 0x09] then None
      else if take 1 line \<noteq> [CHR 0x09] then
        map_option (\<lambda>(i, n). VendorLine i n) (tokenAndName okName line)
      else map_option (\<lambda>(i, n). ProductLine i n) (tokenAndName okName (tl line)))"

text \<open>
  The sections opened so far, the most recent one first, each with its
  products, the most recent one first.
\<close>

type_synonym Section = "string \<times> string \<times> (string \<times> string) list"

fun addEntry :: "Entry \<Rightarrow> Section list \<Rightarrow> Section list" where
  "addEntry (VendorLine i n) secs = (i, n, []) # secs"
| "addEntry (ProductLine i n) [] = []"
| "addEntry (ProductLine i n) ((vi, vn, ps) # secs) = (vi, vn, (i, n) # ps) # secs"


definition databaseOf :: "Section list \<Rightarrow> LinuxDeviceDatabase" where
  "databaseOf secs =
     map_of (map (\<lambda>(vi, vn, ps). (vi, \<lparr>name = vn, devices = map_of ps\<rparr>)) secs)"



text \<open>
  The state of the loader's loop that stands for a list of sections: the
  mapping of the sections, and the identifier of the most recent one.
\<close>

definition sectionsState :: "Section list \<Rightarrow> LoaderState" where
  "sectionsState secs =
     \<lparr>vendors = databaseOf secs,
      currentVendor = (case secs of [] \<Rightarrow> None | (vi, vn, ps) # rest \<Rightarrow> Some vi)\<rparr>"

definition sectionIdsOk :: "Section list \<Rightarrow> bool" where
  "sectionIdsOk secs = list_all (\<lambda>(vi, vn, ps). vi \<noteq> []) secs"

definition addLine :: "(string \<Rightarrow> bool) \<Rightarrow> string \<Rightarrow> Section list \<Rightarrow> Section list" where
  "addLine okName line secs =
     (case classify okName line of None \<Rightarrow> secs | Some e \<Rightarrow> addEntry e secs)"

section \<open>Invariants of the resolver\<close>

text \<open>
  Whenever the database names both the vendor and the product of a pair, and
  neither name is empty, a cache entry for that pair holds exactly these names.
\<close>

definition cacheAgreesWithDatabase :: "USBManager \<Rightarrow> bool" where
  "cacheAgreesWithDatabase m =
     (\<forall>vid pid v p e.
        linuxDeviceDatabase m (hex4 vid) = Some v \<and> name v \<noteq> []
        \<and> devices v (hex4 pid) = Some p \<and> p \<noteq> []
        \<and> deviceStringCache m (cacheKey (hex4 vid) (hex4 pid)) = Some e
        \<longrightarrow> e = \<lparr>manufacturer = Some (name v), product = Some p\<rparr>)"

text \<open>
  What every operation preserves: the database and the registered listeners
  stay, cache entries stay as they are, and the agreement above is kept.
\<close>

definition grows :: "USBManager \<Rightarrow> USBManager \<Rightarrow> bool" where
  "grows m m' =
     (linuxDeviceDatabase m' = linuxDeviceDatabase m \<and> listeners m' = listeners m
      \<and> (\<forall>k e. deviceStringCache m k = Some e \<longrightarrow> deviceStringCache m' k = Some e)
      \<and> (cacheAgreesWithDatabase m \<longrightarrow> cacheAgreesWithDatabase m'))"

section \<open>Concrete hosts, devices and database texts\<close>

text \<open>
  The host of the source as it stands: the existence check answers \<open>false\<close>;
  here every \<open>lsusb\<close> process fails.
\<close>

definition stubHost :: Host where
  "stubHost = \<lparr>qmpExists = stubExists, execSync = (\<lambda>k cmd. None),
               matchManufacturer = (\<lambda>out. None), matchProduct = (\<lambda>out. None)\<rparr>"

text \<open>A host whose control channel reports every device attached.\<close>

definition attachedHost :: Host where
  "attachedHost = stubHost\<lparr>qmpExists := (\<lambda>vid pid. True)\<rparr>"

definition receiver :: Device where
  "receiver = \<lparr>idVendor = 0x046d, idProduct = 0xc52b\<rparr>"

definition receiverRecord :: PTSerializableDeviceInfo where
  "receiverRecord = \<lparr>manufacturer = Some ''Logitech'', product = Some ''Unifying Receiver'',
                     vendorId = 0x046d, productId = 0xc52b\<rparr>"

definition mouseRecord :: PTSerializableDeviceInfo where
  "mouseRecord = \<lparr>manufacturer = Some ''Logitech'', product = Some ''Optical Mouse'',
                  vendorId = 0x046d, productId = 0xc077\<rparr>"

definition logitechText :: string where
  "logitechText =
     ''046d  Logitech'' @ [CHR 0x0A, CHR 0x09] @ ''c52b  Unifying Receiver'' @ [CHR 0x0A]"


definition blankNameText :: string where
  "blankNameText = ''046d  '' @ [CHR 0x0A]"

text \<open>
  A host on which \<open>lsusb\<close> answers, with a manufacturer string ``Acme'' and no
  product string.
\<close>

definition acmeHost :: Host where
  "acmeHost = \<lparr>qmpExists = stubExists, execSync = (\<lambda>k cmd. Some ''Device Descriptor:''),
               matchManufacturer = (\<lambda>out. Some ''Acme''), matchProduct = (\<lambda>out. None)\<rparr>"

definition gadget :: Device where
  "gadget = \<lparr>idVendor = 0x1234, idProduct = 0x5678\<rparr>"

text \<open>The manager constructed over the Logitech text, with no device connected.\<close>

definition logitechManager :: USBManager where
  "logitechManager = newUSBManager stubHost logitechText [] False []"

text \<open>
  The manager constructed over a text whose only vendor line has a blank name;
  and the manager constructed, with the guest offline, over the Logitech text
  while the receiver is connected and is in the stored passthrough list.
\<close>

definition blankNameManager :: USBManager where
  "blankNameManager = newUSBManager stubHost blankNameText [] False []"

definition offlineManager :: USBManager where
  "offlineManager = newUSBManager stubHost logitechText [receiver] False [receiverRecord]"

definition onlineManager :: USBManager where
  "onlineManager = newUSBManager stubHost logitechText [receiver] True [receiverRecord]"

text \<open>A manager that has resolved the receiver and has it in its passthrough list.\<close>

definition cachedManager :: USBManager where
  "cachedManager = (initialManager False [receiverRecord])
     \<lparr>deviceStringCache :=
        [''046d:c52b'' \<mapsto> \<lparr>manufacturer = Some ''Logitech'',
                            product = Some ''Unifying Receiver''\<rparr>]\<rparr>"

section \<open>Identifiers of the concrete devices\<close>

lemma hex4_046d: "hex4 0x046d = ''046d''"
  by (simp add: hex4_def padStart4_def toString16.simps hexDigit_def)

lemma hex4_c52b: "hex4 0xc52b = ''c52b''"
  by (simp add: hex4_def padStart4_def toString16.simps hexDigit_def)

section \<open>The passthrough list: removal, insertion, conversion\<close>

lemma remove_passedThroughDevices:
  "passedThroughDevices (removeDeviceFromPassthroughList h r m) =
     filter (\<lambda>d. vendorId d \<noteq> vendorId r \<and> productId d \<noteq> productId r)
       (passedThroughDevices m)"
  by (simp add: removeDeviceFromPassthroughList_def qmpRemove_def Let_def)

text \<open>
  A record that shares only the vendor identifier, or only the product
  identifier, with the record to remove is removed with it.
\<close>

lemma remove_drops_shared_identifier:
  assumes "vendorId d = vendorId r \<or> productId d = productId r"
  shows "d \<notin> set (passedThroughDevices (removeDeviceFromPassthroughList h r m))"
  using assms by (auto simp: remove_passedThroughDevices)

text \<open>
  C1. The claim is that \<open>remove\<close> takes out exactly the records whose vendor
  and product identifiers both equal those of the given record, and that
  removing a record whose pair is not in the list changes nothing. The filter
  of \<open>removeDeviceFromPassthroughList\<close> keeps a record only when both of its
  identifiers differ, so it also takes out every record that shares one
  identifier. With the receiver \<open>046d:c52b\<close> and the mouse \<open>046d:c077\<close> in the
  list, removing the receiver empties the list, where pair equality would
  leave the mouse; and removing the receiver from a list that holds the mouse
  alone, and so not the receiver's pair, empties that list too.
\<close>

theorem remove_matches_either_field:
  "passedThroughDevices
     (removeDeviceFromPassthroughList stubHost receiverRecord
        (initialManager False [receiverRecord, mouseRecord])) = []
   \<and> passedThroughDevices
     (removeDeviceFromPassthroughList stubHost receiverRecord
        (initialManager False [mouseRecord])) = []
   \<and> filter (\<lambda>d. \<not> (vendorId d = vendorId receiverRecord
                      \<and> productId d = productId receiverRecord))
        [receiverRecord, mouseRecord] = [mouseRecord]"
  by (simp add: removeDeviceFromPassthroughList_def initialManager_def receiverRecord_def
      mouseRecord_def stubHost_def stubExists_def QMPCheckIfDeviceExists_def)

text \<open>An insertion that fails, for whichever reason, leaves the manager as it was.\<close>

lemma add_failure_leaves_manager:
  "fst (addDeviceToPassthroughList h device m) = Some e \<Longrightarrow>
   snd (addDeviceToPassthroughList h device m) = m"
  by (auto simp: addDeviceToPassthroughList_def Let_def split: sum.splits option.splits)

text \<open>
  C3. When the device converts to a record \<open>r\<close> and the passthrough list
  already holds a record with the vendor and product identifiers of \<open>r\<close>,
  \<open>addDeviceToPassthroughList\<close> throws the duplicate error and the manager is
  exactly what it was: the same passthrough list, and the same trace of
  control-channel commands, so no add command was issued.
\<close>

theorem add_duplicate_rejected:
  assumes "convertDeviceToPTSerializable device m = Inr r"
    and "d \<in> set (passedThroughDevices m)"
    and "vendorId d = vendorId r" and "productId d = productId r"
  shows "addDeviceToPassthroughList h device m = (Some AlreadyInPassthroughList, m)"
proof -
  have "find (\<lambda>d. vendorId d = vendorId r \<and> productId d = productId r)
          (passedThroughDevices m) \<noteq> None"
    using assms(2-4) by (auto simp: find_None_iff)
  then show ?thesis
    using assms(1) by (auto simp: addDeviceToPassthroughList_def)
qed

lemma convert_cached: "convertDeviceToPTSerializable receiver cachedManager = Inr receiverRecord"
  by (simp add: convertDeviceToPTSerializable_def cachedManager_def receiver_def
      receiverRecord_def hex4_046d hex4_c52b cacheKey_def initialManager_def)

theorem add_duplicate_rejected_witness:
  "convertDeviceToPTSerializable receiver cachedManager = Inr receiverRecord
   \<and> receiverRecord \<in> set (passedThroughDevices cachedManager)
   \<and> addDeviceToPassthroughList stubHost receiver cachedManager
        = (Some AlreadyInPassthroughList, cachedManager)"
proof -
  have in_list: "receiverRecord \<in> set (passedThroughDevices cachedManager)"
    by (simp add: cachedManager_def initialManager_def)
  show ?thesis
    using add_duplicate_rejected [OF convert_cached in_list refl refl, of stubHost]
      convert_cached in_list by simp
qed

text \<open>
  C4. Converting a live device whose identifier pair has no entry in the
  device string cache fails with the error that its strings are not in the
  cache; when there is an entry, the conversion succeeds and the record
  carries the device's vendor and product identifiers and the cached
  manufacturer and product strings.
\<close>

theorem convert_needs_cached_strings:
  "(deviceStringCache m (cacheKey (hex4 (idVendor d)) (hex4 (idProduct d))) = None \<longrightarrow>
      convertDeviceToPTSerializable d m
        = Inl (StringsNotInCache (hex4 (idVendor d)) (hex4 (idProduct d))))
   \<and> (\<forall>e. deviceStringCache m (cacheKey (hex4 (idVendor d)) (hex4 (idProduct d))) = Some e \<longrightarrow>
      convertDeviceToPTSerializable d m
        = Inr \<lparr>manufacturer = manufacturer e, product = product e,
               vendorId = idVendor d, productId = idProduct d\<rparr>)"
  by (simp add: convertDeviceToPTSerializable_def Let_def)

theorem convert_needs_cached_strings_witness:
  "convertDeviceToPTSerializable receiver (initialManager False [])
     = Inl (StringsNotInCache ''046d'' ''c52b'')
   \<and> convertDeviceToPTSerializable receiver cachedManager = Inr receiverRecord"
proof -
  have miss: "deviceStringCache (initialManager False [])
                (cacheKey (hex4 (idVendor receiver)) (hex4 (idProduct receiver))) = None"
    by (simp add: initialManager_def)
  have hit: "deviceStringCache cachedManager
                (cacheKey (hex4 (idVendor receiver)) (hex4 (idProduct receiver)))
             = Some \<lparr>manufacturer = Some ''Logitech'', product = Some ''Unifying Receiver''\<rparr>"
    by (simp add: cachedManager_def receiver_def hex4_046d hex4_c52b cacheKey_def)
  show ?thesis
    using convert_needs_cached_strings [of "initialManager False []" receiver] miss
      convert_needs_cached_strings [of cachedManager receiver] hit
    by (simp add: receiver_def receiverRecord_def hex4_046d hex4_c52b)
qed

section \<open>The resolver: cache keys, cache entries, and what operations preserve\<close>

lemma hexDigit_in: "d < 16 \<Longrightarrow> hexDigit d \<in> set ''0123456789abcdef''"
  unfolding hexDigit_def by (rule nth_mem) simp

lemma hexDigit_not_colon: "d < 16 \<Longrightarrow> hexDigit d \<noteq> CHR '':''"
  using hexDigit_in [of d] by auto

lemma toString16_no_colon: "CHR '':'' \<notin> set (toString16 n)"
proof (induction n rule: toString16.induct)
  case (1 n)
  show ?case
  proof (cases "n < 16")
    case True
    then show ?thesis
      using hexDigit_not_colon [of n] by (simp add: toString16.simps [of n])
  next
    case False
    have "n mod 16 < 16" by simp
    then have "hexDigit (n mod 16) \<noteq> CHR '':''" by (rule hexDigit_not_colon)
    with False 1 show ?thesis
      by (simp add: toString16.simps [of n])
  qed
qed

lemma hex4_no_colon: "CHR '':'' \<notin> set (hex4 n)"
  using toString16_no_colon [of n] by (simp add: hex4_def padStart4_def)

lemma colon_split_unique:
  "CHR '':'' \<notin> set a \<Longrightarrow> CHR '':'' \<notin> set c \<Longrightarrow>
   a @ CHR '':'' # b = c @ CHR '':'' # d \<Longrightarrow> a = c \<and> b = d"
proof (induction a arbitrary: c)
  case Nil
  then show ?case by (cases c) auto
next
  case (Cons x a)
  then show ?case by (cases c) auto
qed

lemma cacheKey_inject:
  "cacheKey (hex4 a) (hex4 b) = cacheKey (hex4 c) (hex4 d) \<Longrightarrow> hex4 a = hex4 c \<and> hex4 b = hex4 d"
  using colon_split_unique [OF hex4_no_colon hex4_no_colon, where b = "hex4 b" and d = "hex4 d"]
  by (simp add: cacheKey_def)

lemma getDeviceStrings_state:
  "snd (getDeviceStringsFromLsusb h v p m) = m\<lparr>lsusbCalls := Suc (lsusbCalls m)\<rparr>"
  by (simp add: getDeviceStringsFromLsusb_def Let_def split: option.splits)

lemma stringify_hit:
  assumes "deviceStringCache m (cacheKey (hex4 (idVendor d)) (hex4 (idProduct d))) = Some e"
  shows "stringifyDevice h d m =
           (formatDevice (hex4 (idVendor d)) (hex4 (idProduct d))
              (orElse (manufacturer e) ''Unknown Vendor'')
              (orElse (product e) ''Unknown Product''), m)"
  using assms by (simp add: stringifyDevice_def Let_def)

lemma stringify_frame:
  "linuxDeviceDatabase (snd (stringifyDevice h d m)) = linuxDeviceDatabase m"
  "listeners (snd (stringifyDevice h d m)) = listeners m"
  "passedThroughDevices (snd (stringifyDevice h d m)) = passedThroughDevices m"
  "ptDevices (snd (stringifyDevice h d m)) = ptDevices m"
  "devicesRef (snd (stringifyDevice h d m)) = devicesRef m"
  "isOnline (snd (stringifyDevice h d m)) = isOnline m"
  "qmpLog (snd (stringifyDevice h d m)) = qmpLog m"
  by (auto simp: stringifyDevice_def Let_def getDeviceStringsFromLsusb_def
      split: prod.splits option.splits if_splits)

lemma stringify_miss_cache:
  assumes "deviceStringCache m (cacheKey (hex4 (idVendor d)) (hex4 (idProduct d))) = None"
  shows "\<exists>e. deviceStringCache (snd (stringifyDevice h d m)) =
            (deviceStringCache m) (cacheKey (hex4 (idVendor d)) (hex4 (idProduct d)) \<mapsto> e)"
  using assms
  by (auto simp: stringifyDevice_def Let_def getDeviceStringsFromLsusb_def
      split: prod.splits option.splits if_splits)

lemma stringify_database_names:
  assumes "deviceStringCache m (cacheKey (hex4 (idVendor d)) (hex4 (idProduct d))) = None"
    and "linuxDeviceDatabase m (hex4 (idVendor d)) = Some v" and "name v \<noteq> []"
    and "devices v (hex4 (idProduct d)) = Some p" and "p \<noteq> []"
  shows "stringifyDevice h d m =
           (formatDevice (hex4 (idVendor d)) (hex4 (idProduct d)) (name v) p,
            m\<lparr>deviceStringCache := (deviceStringCache m)
                (cacheKey (hex4 (idVendor d)) (hex4 (idProduct d)) \<mapsto>
                   \<lparr>manufacturer = Some (name v), product = Some p\<rparr>)\<rparr>)"
  using assms by (simp add: stringifyDevice_def Let_def truthy_def orNull_def orElse_def)


lemma grows_refl: "grows m m"
  by (simp add: grows_def)

lemma grows_trans: "grows a b \<Longrightarrow> grows b c \<Longrightarrow> grows a c"
  by (auto simp: grows_def)

lemma grows_same:
  assumes "linuxDeviceDatabase m' = linuxDeviceDatabase m"
    and "deviceStringCache m' = deviceStringCache m"
    and "listeners m' = listeners m"
  shows "grows m m'"
  using assms by (simp add: grows_def cacheAgreesWithDatabase_def)

lemma stringify_keeps_agreement:
  assumes inv: "cacheAgreesWithDatabase m"
  shows "cacheAgreesWithDatabase (snd (stringifyDevice h d m))"
proof (cases "deviceStringCache m (cacheKey (hex4 (idVendor d)) (hex4 (idProduct d)))")
  case (Some e)
  then show ?thesis using inv by (simp add: stringify_hit)
next
  case None
  let ?key = "cacheKey (hex4 (idVendor d)) (hex4 (idProduct d))"
  let ?m' = "snd (stringifyDevice h d m)"
  obtain e' where cache': "deviceStringCache ?m' = (deviceStringCache m)(?key \<mapsto> e')"
    using stringify_miss_cache [OF None] by blast
  have db: "linuxDeviceDatabase ?m' = linuxDeviceDatabase m"
    by (rule stringify_frame)
  show ?thesis
    unfolding cacheAgreesWithDatabase_def
  proof (intro allI impI, elim conjE)
    fix vid pid v p e
    assume v: "linuxDeviceDatabase ?m' (hex4 vid) = Some v" and nv: "name v \<noteq> []"
      and p: "devices v (hex4 pid) = Some p" and np: "p \<noteq> []"
      and e: "deviceStringCache ?m' (cacheKey (hex4 vid) (hex4 pid)) = Some e"
    show "e = \<lparr>manufacturer = Some (name v), product = Some p\<rparr>"
    proof (cases "cacheKey (hex4 vid) (hex4 pid) = ?key")
      case True
      then have same: "hex4 vid = hex4 (idVendor d)" "hex4 pid = hex4 (idProduct d)"
        using cacheKey_inject by blast+
      have "stringifyDevice h d m =
              (formatDevice (hex4 (idVendor d)) (hex4 (idProduct d)) (name v) p,
               m\<lparr>deviceStringCache := (deviceStringCache m)
                   (?key \<mapsto> \<lparr>manufacturer = Some (name v), product = Some p\<rparr>)\<rparr>)"
        using v p nv np same db by (intro stringify_database_names [OF None]) simp_all
      then have "deviceStringCache ?m' ?key = Some \<lparr>manufacturer = Some (name v), product = Some p\<rparr>"
        by simp
      with e True show ?thesis by simp
    next
      case False
      with e cache' have "deviceStringCache m (cacheKey (hex4 vid) (hex4 pid)) = Some e"
        by simp
      with inv v nv p np db show ?thesis
        unfolding cacheAgreesWithDatabase_def by metis
    qed
  qed
qed

lemma stringify_keeps_entries:
  assumes "deviceStringCache m k = Some e"
  shows "deviceStringCache (snd (stringifyDevice h d m)) k = Some e"
proof (cases "deviceStringCache m (cacheKey (hex4 (idVendor d)) (hex4 (idProduct d)))")
  case (Some e0)
  then show ?thesis using assms by (simp add: stringify_hit)
next
  case None
  then obtain e' where "deviceStringCache (snd (stringifyDevice h d m)) =
      (deviceStringCache m)(cacheKey (hex4 (idVendor d)) (hex4 (idProduct d)) \<mapsto> e')"
    using stringify_miss_cache by blast
  moreover have "k \<noteq> cacheKey (hex4 (idVendor d)) (hex4 (idProduct d))"
    using None assms by auto
  ultimately show ?thesis using assms by simp
qed

lemma stringify_grows: "grows m (snd (stringifyDevice h d m))"
  unfolding grows_def
  using stringify_keeps_agreement stringify_keeps_entries
  by (simp add: stringify_frame)

lemma stringify_stores_entry:
  "deviceStringCache (snd (stringifyDevice h d m))
     (cacheKey (hex4 (idVendor d)) (hex4 (idProduct d))) \<noteq> None"
proof (cases "deviceStringCache m (cacheKey (hex4 (idVendor d)) (hex4 (idProduct d)))")
  case (Some e0)
  then show ?thesis by (simp add: stringify_hit)
next
  case None
  then show ?thesis using stringify_miss_cache [OF None, of h] by auto
qed

lemma qmpAdd_grows: "grows m (qmpAdd v p m)"
  by (rule grows_same) (simp_all add: qmpAdd_def)

lemma qmpRemove_grows: "grows m (qmpRemove v p m)"
  by (rule grows_same) (simp_all add: qmpRemove_def)

lemma add_grows: "grows m (snd (addDeviceToPassthroughList h d m))"
  by (rule grows_same)
    (simp_all add: addDeviceToPassthroughList_def qmpAdd_def Let_def
      split: sum.splits option.splits)

lemma remove_grows: "grows m (removeDeviceFromPassthroughList h r m)"
  by (rule grows_same) (simp_all add: removeDeviceFromPassthroughList_def qmpRemove_def Let_def)

lemma passThroughConnected_grows: "grows m (passThroughConnected h rs m)"
proof (induction rs arbitrary: m)
  case Nil
  show ?case by (simp add: grows_refl)
next
  case (Cons r rs)
  show ?case
    using Cons [of "qmpAdd (vendorId r) (productId r) m"] Cons [of m]
      grows_trans [OF qmpAdd_grows]
    by auto
qed

lemma onAttach_grows: "grows m (onAttach h l d m)"
proof -
  let ?m1 = "m\<lparr>devicesRef := l\<rparr>"
  let ?m2 = "snd (stringifyDevice h d ?m1)"
  let ?m3 = "snd (stringifyDevice h d ?m2)"
  have 1: "grows m ?m1" by (rule grows_same) simp_all
  have 2: "grows m ?m2" using 1 stringify_grows by (rule grows_trans)
  have 3: "grows m ?m3" using 2 stringify_grows by (rule grows_trans)
  have 4: "grows m (qmpAdd (idVendor d) (idProduct d) ?m3)"
    using 3 qmpAdd_grows by (rule grows_trans)
  show ?thesis
    using 2 4
    by (auto simp: onAttach_def Let_def split: prod.splits sum.splits)
qed

lemma onDetach_grows: "grows m (onDetach h l d m)"
proof -
  let ?m1 = "m\<lparr>devicesRef := l\<rparr>"
  let ?m2 = "snd (stringifyDevice h d ?m1)"
  let ?m3 = "snd (stringifyDevice h d ?m2)"
  have 1: "grows m ?m1" by (rule grows_same) simp_all
  have 2: "grows m ?m2" using 1 stringify_grows by (rule grows_trans)
  have 3: "grows m ?m3" using 2 stringify_grows by (rule grows_trans)
  have 4: "grows m (qmpRemove (idVendor d) (idProduct d) ?m3)"
    using 3 qmpRemove_grows by (rule grows_trans)
  show ?thesis
    using 2 4
    by (auto simp: onDetach_def Let_def split: prod.splits sum.splits)
qed

lemma notify_grows: "grows m (notify h ev l m)"
  by (cases "(h, ev, l, m)" rule: notify.cases)
    (simp_all add: onAttach_grows onDetach_grows grows_refl guestOnlineCallback_def
      passThroughConnected_grows)

lemma fold_notify_grows: "grows m (fold (notify h ev) ls m)"
proof (induction ls arbitrary: m)
  case Nil
  show ?case by (simp add: grows_refl)
next
  case (Cons l ls)
  show ?case
    using grows_trans [OF notify_grows Cons] by simp
qed

lemma emit_grows: "grows m (emit h ev m)"
  by (simp add: emit_def fold_notify_grows)

lemma setOnline_grows: "grows m (setOnline h b m)"
proof -
  have "grows m (m\<lparr>isOnline := b\<rparr>)" by (rule grows_same) simp_all
  then show ?thesis
    using grows_trans [OF _ emit_grows] by (simp add: setOnline_def grows_refl)
qed

lemma perform_grows: "grows m (perform h a m)"
  by (cases a) (simp_all add: stringify_grows add_grows remove_grows emit_grows setOnline_grows)

lemma performAll_grows: "grows m (performAll steps m)"
  unfolding performAll_def
proof (induction steps arbitrary: m)
  case Nil
  show ?case by (simp add: grows_refl)
next
  case (Cons s steps)
  obtain h a where s: "s = (h, a)" by (cases s)
  show ?case
    using grows_trans [OF perform_grows Cons] by (simp add: s)
qed


section \<open>The constructed manager and the states it can reach\<close>

lemma stringifyEach_grows: "grows m (stringifyEach h ds m)"
proof (induction ds arbitrary: m)
  case Nil
  show ?case by (simp add: grows_refl)
next
  case (Cons d ds)
  show ?case using grows_trans [OF stringify_grows Cons] by simp
qed

lemma stringifyEach_frame:
  "passedThroughDevices (stringifyEach h ds m) = passedThroughDevices m"
  "devicesRef (stringifyEach h ds m) = devicesRef m"
  "isOnline (stringifyEach h ds m) = isOnline m"
  "qmpLog (stringifyEach h ds m) = qmpLog m"
  by (induction ds arbitrary: m) (simp_all add: stringify_frame)

lemma newUSBManager_fields:
  "listeners (newUSBManager h content deviceList online config) = [OnAttach, OnDetach]"
  "linuxDeviceDatabase (newUSBManager h content deviceList online config)
     = readLinuxDeviceDatabase content"
  "passedThroughDevices (newUSBManager h content deviceList online config) = config"
  "ptDevices (newUSBManager h content deviceList online config) = config"
  "devicesRef (newUSBManager h content deviceList online config) = deviceList"
  "isOnline (newUSBManager h content deviceList online config) = online"
  "qmpLog (newUSBManager h content deviceList online config) = []"
proof -
  let ?m2 = "(initialManager online config)
               \<lparr>linuxDeviceDatabase := readLinuxDeviceDatabase content, devicesRef := deviceList\<rparr>"
  have g: "grows ?m2 (stringifyEach h deviceList ?m2)" by (rule stringifyEach_grows)
  have l: "listeners (stringifyEach h deviceList ?m2) = []"
    using g by (simp add: grows_def initialManager_def)
  have d: "linuxDeviceDatabase (stringifyEach h deviceList ?m2) = readLinuxDeviceDatabase content"
    using g by (simp add: grows_def)
  show "listeners (newUSBManager h content deviceList online config) = [OnAttach, OnDetach]"
    using l by (simp add: newUSBManager_def Let_def setupUpdateListeners_def)
  show "linuxDeviceDatabase (newUSBManager h content deviceList online config)
     = readLinuxDeviceDatabase content"
    using d by (simp add: newUSBManager_def Let_def setupUpdateListeners_def)
  show "passedThroughDevices (newUSBManager h content deviceList online config) = config"
    by (simp add: newUSBManager_def Let_def setupUpdateListeners_def stringifyEach_frame
        initialManager_def)
  show "ptDevices (newUSBManager h content deviceList online config) = config"
    by (simp add: newUSBManager_def Let_def setupUpdateListeners_def stringifyEach_frame
        initialManager_def)
  show "devicesRef (newUSBManager h content deviceList online config) = deviceList"
    by (simp add: newUSBManager_def Let_def setupUpdateListeners_def stringifyEach_frame)
  show "isOnline (newUSBManager h content deviceList online config) = online"
    by (simp add: newUSBManager_def Let_def setupUpdateListeners_def stringifyEach_frame
        initialManager_def)
  show "qmpLog (newUSBManager h content deviceList online config) = []"
    by (simp add: newUSBManager_def Let_def setupUpdateListeners_def stringifyEach_frame
        initialManager_def)
qed

lemma newUSBManager_agrees:
  "cacheAgreesWithDatabase (newUSBManager h content deviceList online config)"
proof -
  let ?m2 = "(initialManager online config)
               \<lparr>linuxDeviceDatabase := readLinuxDeviceDatabase content, devicesRef := deviceList\<rparr>"
  have "cacheAgreesWithDatabase ?m2"
    by (simp add: cacheAgreesWithDatabase_def initialManager_def)
  then have "cacheAgreesWithDatabase (stringifyEach h deviceList ?m2)"
    using stringifyEach_grows [of ?m2 h deviceList] by (simp add: grows_def)
  then show ?thesis
    by (simp add: newUSBManager_def Let_def setupUpdateListeners_def cacheAgreesWithDatabase_def)
qed

lemma reachable_facts:
  assumes "m = performAll steps (newUSBManager h0 content deviceList online config)"
  shows "listeners m = [OnAttach, OnDetach]"
    and "linuxDeviceDatabase m = readLinuxDeviceDatabase content"
    and "cacheAgreesWithDatabase m"
  using performAll_grows [of "newUSBManager h0 content deviceList online config" steps]
    newUSBManager_agrees [of h0 content deviceList online config] assms
  by (simp_all add: grows_def newUSBManager_fields)

lemma in_list_after_stringify:
  "isDeviceInPassthroughList d (snd (stringifyDevice h d m)) =
     Inr (list_ex (\<lambda>r. vendorId r = idVendor d \<and> productId r = idProduct d)
            (passedThroughDevices m))"
proof -
  obtain e where "deviceStringCache (snd (stringifyDevice h d m))
      (cacheKey (hex4 (idVendor d)) (hex4 (idProduct d))) = Some e"
    using stringify_stores_entry [of h d m] by auto
  then show ?thesis
    by (simp add: isDeviceInPassthroughList_def convertDeviceToPTSerializable_def Let_def
        stringify_frame)
qed

lemma onAttach_qmpLog:
  "qmpLog (onAttach h l d m) =
     qmpLog m @
       (if isOnline m
           \<and> list_ex (\<lambda>r. vendorId r = idVendor d \<and> productId r = idProduct d)
               (passedThroughDevices m)
           \<and> \<not> qmpExists h (idVendor d) (idProduct d)
        then [QMPAddDevice (idVendor d) (idProduct d)] else [])"
proof -
  let ?m1 = "m\<lparr>devicesRef := l\<rparr>"
  have "isDeviceInPassthroughList d (snd (stringifyDevice h d ?m1)) =
     Inr (list_ex (\<lambda>r. vendorId r = idVendor d \<and> productId r = idProduct d)
            (passedThroughDevices m))"
    using in_list_after_stringify [of d h ?m1] by simp
  then show ?thesis
    by (simp add: onAttach_def Let_def case_prod_unfold stringify_frame
        QMPCheckIfDeviceExists_def qmpAdd_def)
qed

lemma onDetach_qmpLog:
  "qmpLog (onDetach h l d m) =
     qmpLog m @
       (if isOnline m
           \<and> list_ex (\<lambda>r. vendorId r = idVendor d \<and> productId r = idProduct d)
               (passedThroughDevices m)
           \<and> qmpExists h (idVendor d) (idProduct d)
        then [QMPRemoveDevice (idVendor d) (idProduct d)] else [])"
proof -
  let ?m1 = "m\<lparr>devicesRef := l\<rparr>"
  have "isDeviceInPassthroughList d (snd (stringifyDevice h d ?m1)) =
     Inr (list_ex (\<lambda>r. vendorId r = idVendor d \<and> productId r = idProduct d)
            (passedThroughDevices m))"
    using in_list_after_stringify [of d h ?m1] by simp
  then show ?thesis
    by (simp add: onDetach_def Let_def case_prod_unfold stringify_frame
        QMPCheckIfDeviceExists_def qmpRemove_def)
qed

section \<open>The guest-online sweep\<close>

text \<open>
  The body of the guest-online callback issues one add command for each
  record of the list, in list order, that is connected and that the control
  channel does not report attached.
\<close>

lemma passThroughConnected_qmpLog:
  "qmpLog (passThroughConnected h rs m) =
     qmpLog m @
       map (\<lambda>r. QMPAddDevice (vendorId r) (productId r))
         (filter (\<lambda>r. isPTDeviceConnected r m \<and> \<not> qmpExists h (vendorId r) (productId r)) rs)"
proof (induction rs arbitrary: m)
  case Nil
  show ?case by simp
next
  case (Cons r rs)
  have c: "\<And>x. isPTDeviceConnected x (qmpAdd (vendorId r) (productId r) m) = isPTDeviceConnected x m"
    by (simp add: isPTDeviceConnected_def qmpAdd_def)
  show ?case
    by (simp add: Cons c QMPCheckIfDeviceExists_def) (simp add: qmpAdd_def)
qed

lemma setOnline_issues_nothing:
  assumes "m = performAll steps (newUSBManager h0 content deviceList online config)"
  shows "qmpLog (setOnline h b m) = qmpLog m"
proof -
  have ls: "listeners m = [OnAttach, OnDetach]"
    using assms by (rule reachable_facts)
  show ?thesis by (simp add: setOnline_def emit_def ls)
qed

section \<open>Evaluating the loader on concrete texts\<close>

lemmas loader_eval =
  readLinuxDeviceDatabase_def loaderStep_def startsWithHash_def trim_def isWhiteSpace_def
  charAt_def matchVendorLine_def matchDeviceLine_def isHexDigit_def matchSpacesName_def
  toLowerCase_def toLowerCaseChar_def isLineTerminator_def Let_def

lemma splitLines_logitechText:
  "splitLines logitechText = [''046d  Logitech'', CHR 0x09 # ''c52b  Unifying Receiver'', []]"
  by (simp add: logitechText_def)

lemma read_logitechText:
  "readLinuxDeviceDatabase logitechText =
     [''046d'' \<mapsto> \<lparr>name = ''Logitech'', devices = [''c52b'' \<mapsto> ''Unifying Receiver'']\<rparr>]"
  by (simp add: splitLines_logitechText loader_eval)

lemma read_blankNameText:
  "readLinuxDeviceDatabase blankNameText = [''046d'' \<mapsto> \<lparr>name = [], devices = Map.empty\<rparr>]"
  by (simp add: blankNameText_def loader_eval)


section \<open>Hotplug events\<close>

text \<open>
  C7. In every state that a constructed manager can reach, an attach event
  appends exactly one add command for the device when the guest is online,
  the device's identifier pair is in the passthrough list and the control
  channel does not report the device attached, and appends nothing otherwise;
  a detach event appends exactly one remove command when the guest is online,
  the pair is in the list and the control channel reports the device attached,
  and nothing otherwise. In particular neither appends anything while the
  guest is offline.
\<close>

theorem hotplug_calls_guarded:
  assumes "m = performAll steps (newUSBManager h0 content deviceList online config)"
  shows "qmpLog (emit h (Attach l d) m) =
           qmpLog m @
             (if isOnline m
                 \<and> list_ex (\<lambda>r. vendorId r = idVendor d \<and> productId r = idProduct d)
                     (passedThroughDevices m)
                 \<and> \<not> qmpExists h (idVendor d) (idProduct d)
              then [QMPAddDevice (idVendor d) (idProduct d)] else [])
       \<and> qmpLog (emit h (Detach l d) m) =
           qmpLog m @
             (if isOnline m
                 \<and> list_ex (\<lambda>r. vendorId r = idVendor d \<and> productId r = idProduct d)
                     (passedThroughDevices m)
                 \<and> qmpExists h (idVendor d) (idProduct d)
              then [QMPRemoveDevice (idVendor d) (idProduct d)] else [])"
proof -
  have ls: "listeners m = [OnAttach, OnDetach]"
    using assms by (rule reachable_facts)
  have a: "emit h (Attach l d) m = onAttach h l d m"
    by (simp add: emit_def ls)
  have b: "emit h (Detach l d) m = onDetach h l d m"
    by (simp add: emit_def ls)
  show ?thesis
    unfolding a b by (simp only: onAttach_qmpLog onDetach_qmpLog)
qed

theorem hotplug_calls_guarded_witness:
  "onlineManager = performAll []
      (newUSBManager stubHost logitechText [receiver] True [receiverRecord])
   \<and> qmpLog (emit stubHost (Attach [receiver] receiver) onlineManager)
       = [QMPAddDevice 0x046d 0xc52b]
   \<and> qmpLog (emit attachedHost (Attach [receiver] receiver) onlineManager) = []
   \<and> qmpLog (emit attachedHost (Detach [] receiver) onlineManager)
       = [QMPRemoveDevice 0x046d 0xc52b]
   \<and> qmpLog (emit stubHost (Detach [] receiver) onlineManager) = []
   \<and> qmpLog (emit stubHost (Attach [receiver] receiver) offlineManager) = []"
proof -
  have r: "onlineManager = performAll []
             (newUSBManager stubHost logitechText [receiver] True [receiverRecord])"
    by (simp add: performAll_def onlineManager_def)
  have r': "offlineManager = performAll []
             (newUSBManager stubHost logitechText [receiver] False [receiverRecord])"
    by (simp add: performAll_def offlineManager_def)
  have f: "passedThroughDevices onlineManager = [receiverRecord]" "isOnline onlineManager"
    "qmpLog onlineManager = []"
    by (simp_all add: onlineManager_def newUSBManager_fields)
  have f': "\<not> isOnline offlineManager" "qmpLog offlineManager = []"
    by (simp_all add: offlineManager_def newUSBManager_fields)
  have ids: "vendorId receiverRecord = idVendor receiver" "productId receiverRecord = idProduct receiver"
    "idVendor receiver = 0x046d" "idProduct receiver = 0xc52b"
    by (simp_all add: receiver_def receiverRecord_def)
  have hs: "\<not> qmpExists stubHost (idVendor receiver) (idProduct receiver)"
    "qmpExists attachedHost (idVendor receiver) (idProduct receiver)"
    by (simp_all add: stubHost_def attachedHost_def stubExists_def)
  show ?thesis
    using hotplug_calls_guarded [OF r, where h = stubHost and l = "[receiver]" and d = receiver]
      hotplug_calls_guarded [OF r, where h = attachedHost and l = "[receiver]" and d = receiver]
      hotplug_calls_guarded [OF r, where h = attachedHost and l = "[]" and d = receiver]
      hotplug_calls_guarded [OF r, where h = stubHost and l = "[]" and d = receiver]
      hotplug_calls_guarded [OF r', where h = stubHost and l = "[receiver]" and d = receiver]
      r f f' hs
    by (simp add: ids)
qed

section \<open>The guest-online sweep is never installed\<close>

text \<open>
  C2. The claim is that on every change of the guest's status from offline to
  online every record of the passthrough list that is connected and not
  reported attached receives exactly one add command. The callback that would
  do so is registered by \<open>#setupGuestOnlineListener\<close>, and nothing calls that
  method: the constructor calls \<open>#setupUpdateListeners\<close> alone. For the manager
  constructed with the guest offline, the receiver connected and the
  receiver's record in the stored list, on the host of the source (whose
  existence check answers \<open>false\<close>): the registered listeners are the attach
  and the detach listener; the record is connected and not reported
  attached; the guest going online issues no command at all; whereas the
  callback, had it been registered, would have issued the one add command
  for the receiver.
\<close>

theorem guest_online_sweep_never_runs:
  "listeners offlineManager = [OnAttach, OnDetach]
   \<and> passedThroughDevices offlineManager = [receiverRecord]
   \<and> isPTDeviceConnected receiverRecord offlineManager
   \<and> \<not> QMPCheckIfDeviceExists stubHost (vendorId receiverRecord) (productId receiverRecord)
   \<and> \<not> isOnline offlineManager
   \<and> isOnline (setOnline stubHost True offlineManager)
   \<and> qmpLog (setOnline stubHost True offlineManager) = []
   \<and> qmpLog (guestOnlineCallback stubHost True (offlineManager\<lparr>isOnline := True\<rparr>))
       = [QMPAddDevice 0x046d 0xc52b]"
proof -
  have r: "offlineManager = performAll []
             (newUSBManager stubHost logitechText [receiver] False [receiverRecord])"
    by (simp add: performAll_def offlineManager_def)
  have f: "listeners offlineManager = [OnAttach, OnDetach]"
    "passedThroughDevices offlineManager = [receiverRecord]"
    "devicesRef offlineManager = [receiver]"
    "isOnline offlineManager = False"
    "qmpLog offlineManager = []"
    by (simp_all add: offlineManager_def newUSBManager_fields)
  have c: "isPTDeviceConnected receiverRecord offlineManager"
    by (simp add: isPTDeviceConnected_def f receiver_def receiverRecord_def)
  have e: "\<not> QMPCheckIfDeviceExists stubHost (vendorId receiverRecord) (productId receiverRecord)"
    by (simp add: QMPCheckIfDeviceExists_def stubHost_def stubExists_def)
  have o: "isOnline (setOnline stubHost True offlineManager)"
    by (simp add: setOnline_def emit_def f)
  have s: "qmpLog (setOnline stubHost True offlineManager) = []"
    using setOnline_issues_nothing [OF r, of stubHost True] by (simp add: f)
  have c': "isPTDeviceConnected receiverRecord (offlineManager\<lparr>isOnline := True\<rparr>)"
    using c by (simp add: isPTDeviceConnected_def)
  have g: "qmpLog (guestOnlineCallback stubHost True (offlineManager\<lparr>isOnline := True\<rparr>))
       = [QMPAddDevice 0x046d 0xc52b]"
    using c' e
    by (simp add: guestOnlineCallback_def f QMPCheckIfDeviceExists_def qmpAdd_def)
      (simp add: receiverRecord_def)
  show ?thesis
    using f c e o s g by simp
qed


section \<open>Resolution of display strings\<close>

lemma hex4_1234: "hex4 0x1234 = ''1234''"
  by (simp add: hex4_def padStart4_def toString16.simps hexDigit_def)

lemma hex4_5678: "hex4 0x5678 = ''5678''"
  by (simp add: hex4_def padStart4_def toString16.simps hexDigit_def)

lemma logitechManager_eq:
  "logitechManager =
     \<lparr>devicesRef = [], ptDevices = [],
      linuxDeviceDatabase =
        [''046d'' \<mapsto> \<lparr>name = ''Logitech'', devices = [''c52b'' \<mapsto> ''Unifying Receiver'']\<rparr>],
      deviceStringCache = Map.empty, isOnline = False, passedThroughDevices = [],
      listeners = [OnAttach, OnDetach], qmpLog = [], lsusbCalls = 0\<rparr>"
  by (simp add: logitechManager_def newUSBManager_def initialManager_def
      setupUpdateListeners_def read_logitechText)

lemma logitechManager_reachable:
  "logitechManager = performAll [] (newUSBManager stubHost logitechText [] False [])"
  by (simp add: performAll_def logitechManager_def)

lemmas resolver_eval =
  stringifyDevice_def getDeviceStringsFromLsusb_def cacheKey_def formatDevice_def
  orElse_def orNull_def truthy_def lsusbCommand_def trim_def isWhiteSpace_def Let_def

lemma gadget_first_resolution:
  "stringifyDevice acmeHost gadget logitechManager =
     (''[1234:5678] Acme | Unknown Product'',
      logitechManager\<lparr>lsusbCalls := 2,
        deviceStringCache := [''1234:5678'' \<mapsto> \<lparr>manufacturer = Some ''Acme'', product = None\<rparr>]\<rparr>)"
  by (simp add: logitechManager_eq gadget_def acmeHost_def hex4_1234 hex4_5678 resolver_eval)


text \<open>
  C5. Once a device has been resolved, whatever the manager does afterwards
  (any sequence of resolutions, insertions, removals, hotplug events and
  changes of the guest's status, on hosts that may differ from step to step),
  a later resolution of a device with the same vendor and product identifiers
  finds the cache entry that the first resolution left: it returns the string
  formatted from that entry, leaves the manager unchanged, and starts no
  \<open>lsusb\<close> process.
\<close>

theorem repeated_resolution_hits_cache:
  fixes h h' :: Host and d d' :: Device and m :: USBManager and steps :: "(Host \<times> Action) list"
  defines "m1 \<equiv> snd (stringifyDevice h d m)"
  defines "m2 \<equiv> performAll steps m1"
  assumes "idVendor d' = idVendor d" and "idProduct d' = idProduct d"
  shows "\<exists>e. deviceStringCache m1 (cacheKey (hex4 (idVendor d)) (hex4 (idProduct d))) = Some e
           \<and> stringifyDevice h' d' m2 =
               (formatDevice (hex4 (idVendor d)) (hex4 (idProduct d))
                  (orElse (manufacturer e) ''Unknown Vendor'')
                  (orElse (product e) ''Unknown Product''), m2)
           \<and> lsusbCalls (snd (stringifyDevice h' d' m2)) = lsusbCalls m2"
proof -
  obtain e where e: "deviceStringCache m1 (cacheKey (hex4 (idVendor d)) (hex4 (idProduct d))) = Some e"
    using stringify_stores_entry [of h d m] unfolding m1_def by auto
  have "grows m1 m2" unfolding m2_def by (rule performAll_grows)
  with e have "deviceStringCache m2 (cacheKey (hex4 (idVendor d')) (hex4 (idProduct d'))) = Some e"
    using assms(3,4) by (simp add: grows_def)
  then have "stringifyDevice h' d' m2 =
               (formatDevice (hex4 (idVendor d)) (hex4 (idProduct d))
                  (orElse (manufacturer e) ''Unknown Vendor'')
                  (orElse (product e) ''Unknown Product''), m2)"
    using stringify_hit [of m2 d' e h'] assms(3,4) by simp
  with e show ?thesis by auto
qed

theorem repeated_resolution_hits_cache_witness:
  "idVendor gadget = idVendor gadget \<and> idProduct gadget = idProduct gadget
   \<and> stringifyDevice acmeHost gadget logitechManager
       = (''[1234:5678] Acme | Unknown Product'',
          logitechManager\<lparr>lsusbCalls := 2,
            deviceStringCache :=
              [''1234:5678'' \<mapsto> \<lparr>manufacturer = Some ''Acme'', product = None\<rparr>]\<rparr>)
   \<and> fst (stringifyDevice acmeHost gadget
        (performAll [(acmeHost, Plug [gadget] gadget)]
           (snd (stringifyDevice acmeHost gadget logitechManager))))
       = ''[1234:5678] Acme | Unknown Product''
   \<and> lsusbCalls (snd (stringifyDevice acmeHost gadget
        (performAll [(acmeHost, Plug [gadget] gadget)]
           (snd (stringifyDevice acmeHost gadget logitechManager)))))
       = lsusbCalls (performAll [(acmeHost, Plug [gadget] gadget)]
           (snd (stringifyDevice acmeHost gadget logitechManager)))"
proof -
  let ?m1 = "snd (stringifyDevice acmeHost gadget logitechManager)"
  let ?m2 = "performAll [(acmeHost, Plug [gadget] gadget)] ?m1"
  obtain e where
    e: "deviceStringCache ?m1 (cacheKey (hex4 (idVendor gadget)) (hex4 (idProduct gadget))) = Some e"
    and hit: "stringifyDevice acmeHost gadget ?m2 =
               (formatDevice (hex4 (idVendor gadget)) (hex4 (idProduct gadget))
                  (orElse (manufacturer e) ''Unknown Vendor'')
                  (orElse (product e) ''Unknown Product''), ?m2)"
    and calls: "lsusbCalls (snd (stringifyDevice acmeHost gadget ?m2)) = lsusbCalls ?m2"
    using repeated_resolution_hits_cache
      [of gadget gadget acmeHost logitechManager acmeHost "[(acmeHost, Plug [gadget] gadget)]"]
    by auto
  have key: "cacheKey (hex4 (idVendor gadget)) (hex4 (idProduct gadget)) = ''1234:5678''"
    by (simp add: gadget_def hex4_1234 hex4_5678 cacheKey_def)
  have "deviceStringCache ?m1 ''1234:5678'' = Some \<lparr>manufacturer = Some ''Acme'', product = None\<rparr>"
    by (simp add: gadget_first_resolution)
  with e key have "e = \<lparr>manufacturer = Some ''Acme'', product = None\<rparr>"
    by simp
  then have "fst (stringifyDevice acmeHost gadget ?m2) = ''[1234:5678] Acme | Unknown Product''"
    using hit by (simp add: gadget_def hex4_1234 hex4_5678 formatDevice_def orElse_def)
  then show ?thesis
    using calls gadget_first_resolution by simp
qed



text \<open>
  C6. In every state that a constructed manager can reach, when the database
  read at construction names the vendor of a device and, under that vendor,
  its product, and neither name is empty, resolution returns
  \<open>[vidHex:pidHex] Vendor | Product\<close> with the names of the database and
  starts no \<open>lsusb\<close> process. With vendor \<open>046d\<close> named Logitech and its
  product \<open>c52b\<close> named Unifying Receiver, resolving that pair gives
  \<open>[046d:c52b] Logitech | Unifying Receiver\<close>, also on a host whose \<open>lsusb\<close>
  would have answered with other names.
\<close>

theorem database_names_without_fallback:
  assumes "m = performAll steps (newUSBManager h0 content deviceList online config)"
    and "readLinuxDeviceDatabase content (hex4 (idVendor d)) = Some v" and "name v \<noteq> []"
    and "devices v (hex4 (idProduct d)) = Some p" and "p \<noteq> []"
  shows "fst (stringifyDevice h d m)
           = ''['' @ hex4 (idVendor d) @ '':'' @ hex4 (idProduct d) @ ''] '' @ name v @ '' | '' @ p
       \<and> lsusbCalls (snd (stringifyDevice h d m)) = lsusbCalls m"
proof -
  let ?key = "cacheKey (hex4 (idVendor d)) (hex4 (idProduct d))"
  have db: "linuxDeviceDatabase m (hex4 (idVendor d)) = Some v"
    using reachable_facts(2) [OF assms(1)] assms(2) by simp
  have agrees: "cacheAgreesWithDatabase m"
    using assms(1) by (rule reachable_facts)
  show ?thesis
  proof (cases "deviceStringCache m ?key")
    case None
    show ?thesis
      using stringify_database_names [OF None db assms(3) assms(4) assms(5), of h]
      by (simp add: formatDevice_def)
  next
    case (Some e)
    have "e = \<lparr>manufacturer = Some (name v), product = Some p\<rparr>"
      using agrees db assms(3-5) Some unfolding cacheAgreesWithDatabase_def by blast
    then show ?thesis
      using stringify_hit [OF Some, of h] assms(3,5)
      by (simp add: formatDevice_def orElse_def)
  qed
qed

theorem database_names_without_fallback_witness:
  "logitechManager = performAll [] (newUSBManager stubHost logitechText [] False [])
   \<and> readLinuxDeviceDatabase logitechText (hex4 (idVendor receiver))
       = Some \<lparr>name = ''Logitech'', devices = [''c52b'' \<mapsto> ''Unifying Receiver'']\<rparr>
   \<and> fst (stringifyDevice acmeHost receiver logitechManager)
       = ''[046d:c52b] Logitech | Unifying Receiver''
   \<and> lsusbCalls (snd (stringifyDevice acmeHost receiver logitechManager))
       = lsusbCalls logitechManager"
proof -
  let ?v = "\<lparr>name = ''Logitech'', devices = [''c52b'' \<mapsto> ''Unifying Receiver'']\<rparr>"
  have v: "readLinuxDeviceDatabase logitechText (hex4 (idVendor receiver)) = Some ?v"
    by (simp add: read_logitechText receiver_def hex4_046d)
  have p: "devices ?v (hex4 (idProduct receiver)) = Some ''Unifying Receiver''"
    by (simp add: receiver_def hex4_c52b)
  show ?thesis
    using database_names_without_fallback
      [OF logitechManager_reachable v _ p, of acmeHost] v logitechManager_reachable
    by (simp add: receiver_def hex4_046d hex4_c52b)
qed




section \<open>First and later display strings\<close>

lemma blankNameManager_eq:
  "blankNameManager =
     \<lparr>devicesRef = [], ptDevices = [],
      linuxDeviceDatabase = [''046d'' \<mapsto> \<lparr>name = [], devices = Map.empty\<rparr>],
      deviceStringCache = Map.empty, isOnline = False, passedThroughDevices = [],
      listeners = [OnAttach, OnDetach], qmpLog = [], lsusbCalls = 0\<rparr>"
  by (simp add: blankNameManager_def newUSBManager_def initialManager_def
      setupUpdateListeners_def read_blankNameText)

lemma blank_first_resolution:
  "stringifyDevice stubHost receiver blankNameManager =
     (''[046d:c52b]  | Unknown Product'',
      blankNameManager\<lparr>lsusbCalls := 2,
        deviceStringCache := [''046d:c52b'' \<mapsto> \<lparr>manufacturer = None, product = None\<rparr>]\<rparr>)"
  by (simp add: blankNameManager_eq receiver_def stubHost_def hex4_046d hex4_c52b resolver_eval)


text \<open>
  The first resolution and every later one print the same string whenever the
  database does not have the vendor with an empty name.
\<close>

lemma orElse_orNull: "orElse (orNull x) d = orElse x d"
  by (simp add: orElse_def orNull_def split: option.splits)

lemma stringify_miss_result:
  assumes miss: "deviceStringCache m (cacheKey (hex4 (idVendor d)) (hex4 (idProduct d))) = None"
  shows "\<exists>vendor1 product1.
           fst (stringifyDevice h d m) =
             formatDevice (hex4 (idVendor d)) (hex4 (idProduct d))
               (case vendor1 of None \<Rightarrow> ''Unknown Vendor'' | Some v \<Rightarrow> name v)
               (orElse product1 ''Unknown Product'')
         \<and> deviceStringCache (snd (stringifyDevice h d m))
               (cacheKey (hex4 (idVendor d)) (hex4 (idProduct d)))
             = Some \<lparr>manufacturer = orNull (map_option name vendor1), product = orNull product1\<rparr>
         \<and> (vendor1 = linuxDeviceDatabase m (hex4 (idVendor d))
              \<or> (\<exists>s. s \<noteq> [] \<and> vendor1 = Some \<lparr>name = s, devices = Map.empty\<rparr>))"
proof -
  let ?vh = "hex4 (idVendor d)" and ?ph = "hex4 (idProduct d)"
  let ?vendor0 = "linuxDeviceDatabase m ?vh"
  let ?product0 = "case ?vendor0 of None \<Rightarrow> None | Some v \<Rightarrow> devices v ?ph"
  let ?P = "if \<not> truthy ?product0
            then (case getDeviceStringsFromLsusb h ?vh ?ph m of
                    (deviceStrings, m') \<Rightarrow> (product deviceStrings, m'))
            else (?product0, m)"
  obtain product1 m1 where p: "?P = (product1, m1)" by (cases ?P)
  let ?V = "if \<not> truthy (map_option name ?vendor0)
            then (case getDeviceStringsFromLsusb h ?vh ?ph m1 of
                    (deviceStrings, m') \<Rightarrow>
                      (case manufacturer deviceStrings of
                         None \<Rightarrow> (?vendor0, m')
                       | Some s \<Rightarrow>
                           if s = [] then (?vendor0, m')
                           else (Some \<lparr>name = s, devices = Map.empty\<rparr>, m')))
            else (?vendor0, m1)"
  obtain vendor1 m2 where v: "?V = (vendor1, m2)" by (cases ?V)
  have r: "stringifyDevice h d m =
      (formatDevice ?vh ?ph
         (case vendor1 of None \<Rightarrow> ''Unknown Vendor'' | Some v \<Rightarrow> name v)
         (orElse product1 ''Unknown Product''),
       m2\<lparr>deviceStringCache := (deviceStringCache m2)
           (cacheKey ?vh ?ph \<mapsto> \<lparr>manufacturer = orNull (map_option name vendor1),
                                  product = orNull product1\<rparr>)\<rparr>)"
    by (simp only: stringifyDevice_def Let_def miss option.case p prod.case v)
  have vp: "vendor1 = ?vendor0 \<or> (\<exists>s. s \<noteq> [] \<and> vendor1 = Some \<lparr>name = s, devices = Map.empty\<rparr>)"
    using v by (auto simp: case_prod_unfold split: if_splits option.splits)
  show ?thesis
    using vp by (intro exI [of _ vendor1] exI [of _ product1]) (simp add: r)
qed

lemma first_and_later_agree:
  assumes "linuxDeviceDatabase m (hex4 (idVendor d)) = None
           \<or> (\<exists>v. linuxDeviceDatabase m (hex4 (idVendor d)) = Some v \<and> name v \<noteq> [])"
  shows "fst (stringifyDevice h' d (snd (stringifyDevice h d m))) = fst (stringifyDevice h d m)"
proof (cases "deviceStringCache m (cacheKey (hex4 (idVendor d)) (hex4 (idProduct d)))")
  case (Some e)
  then show ?thesis by (simp add: stringify_hit)
next
  case None
  obtain vendor1 product1 where
    r: "fst (stringifyDevice h d m) =
             formatDevice (hex4 (idVendor d)) (hex4 (idProduct d))
               (case vendor1 of None \<Rightarrow> ''Unknown Vendor'' | Some v \<Rightarrow> name v)
               (orElse product1 ''Unknown Product'')"
    and c: "deviceStringCache (snd (stringifyDevice h d m))
               (cacheKey (hex4 (idVendor d)) (hex4 (idProduct d)))
             = Some \<lparr>manufacturer = orNull (map_option name vendor1), product = orNull product1\<rparr>"
    and v: "vendor1 = linuxDeviceDatabase m (hex4 (idVendor d))
              \<or> (\<exists>s. s \<noteq> [] \<and> vendor1 = Some \<lparr>name = s, devices = Map.empty\<rparr>)"
    using stringify_miss_result [OF None, of h] by blast
  have "orElse (map_option name vendor1) ''Unknown Vendor''
          = (case vendor1 of None \<Rightarrow> ''Unknown Vendor'' | Some v \<Rightarrow> name v)"
    using v assms by (auto simp: orElse_def)
  then show ?thesis
    unfolding r using stringify_hit [OF c, of h'] by (simp add: orElse_orNull)
qed

text \<open>
  C10. The claim is that the string of the first resolution of a pair equals
  the string of every later resolution of it. The first resolution prints
  \<open>vendor ? vendor.name : "Unknown Vendor"\<close> and stores
  \<open>vendor?.name || null\<close>; a later one prints
  \<open>cached.manufacturer || "Unknown Vendor"\<close>. They differ when the database
  has the vendor with an empty name and \<open>lsusb\<close> gives no manufacturer. The
  loader produces such an entry from the line \<open>046d\<close> followed by two spaces;
  over that text, on the host of the source whose \<open>lsusb\<close> fails, the first
  resolution of \<open>046d:c52b\<close> prints an empty vendor name and every later one
  prints \<open>Unknown Vendor\<close>.
\<close>

theorem first_and_later_display_differ:
  "readLinuxDeviceDatabase blankNameText = [''046d'' \<mapsto> \<lparr>name = [], devices = Map.empty\<rparr>]
   \<and> fst (stringifyDevice stubHost receiver blankNameManager)
       = ''[046d:c52b]  | Unknown Product''
   \<and> fst (stringifyDevice stubHost receiver
            (snd (stringifyDevice stubHost receiver blankNameManager)))
       = ''[046d:c52b] Unknown Vendor | Unknown Product''"
proof -
  have "fst (stringifyDevice stubHost receiver
            (snd (stringifyDevice stubHost receiver blankNameManager)))
       = ''[046d:c52b] Unknown Vendor | Unknown Product''"
    unfolding blank_first_resolution
    by (simp add: blankNameManager_eq receiver_def hex4_046d hex4_c52b resolver_eval)
  then show ?thesis
    by (simp add: blank_first_resolution read_blankNameText)
qed

section \<open>The loader against the parsing rule\<close>

text \<open>
  The tail of the two patterns, as matched by backtracking, against its
  meaning: there is a way to cut the rest of the line into white space and a
  name without line terminator; and whichever cut the matcher takes, the
  trimmed capture is the trimmed rest of the line.
\<close>

lemma trim_blank: "(trim s = []) = list_all isWhiteSpace s"
proof
  assume "trim s = []"
  then have a: "\<forall>x\<in>set (dropWhile isWhiteSpace s). isWhiteSpace x"
    by (simp add: trim_def)
  have "dropWhile isWhiteSpace s = []"
  proof (rule ccontr)
    assume ne: "dropWhile isWhiteSpace s \<noteq> []"
    then have "\<not> isWhiteSpace (hd (dropWhile isWhiteSpace s))"
      by (rule hd_dropWhile)
    moreover have "hd (dropWhile isWhiteSpace s) \<in> set (dropWhile isWhiteSpace s)"
      using ne by simp
    ultimately show False using a by blast
  qed
  then show "list_all isWhiteSpace s"
    by (simp add: list_all_iff)
next
  assume "list_all isWhiteSpace s"
  then have e: "dropWhile isWhiteSpace s = []"
    by (simp add: list_all_iff)
  show "trim s = []"
    unfolding trim_def e by simp
qed

lemma trim_drop_spaces:
  assumes "list_all isWhiteSpace (take k s)"
  shows "trim (drop k s) = trim s"
proof -
  have "dropWhile isWhiteSpace (take k s @ drop k s) = dropWhile isWhiteSpace (drop k s)"
    using assms by (intro dropWhile_append2) (simp add: list_all_iff)
  then show ?thesis by (simp add: trim_def)
qed

lemma all_take_takeWhile:
  "k \<le> length s \<Longrightarrow> list_all P (take k s) = (k \<le> length (takeWhile P s))"
proof (induction s arbitrary: k)
  case Nil
  then show ?case by simp
next
  case (Cons x s)
  then show ?case by (cases k) auto
qed

lemma captureAfterSpaces_Some:
  "captureAfterSpaces n s = Some c \<Longrightarrow>
   \<exists>k. 1 \<le> k \<and> k \<le> n \<and> c = drop k s \<and> lineName c"
proof (induction n)
  case 0
  then show ?case by simp
next
  case (Suc n)
  show ?case
  proof (cases "lineName (drop (Suc n) s)")
    case True
    then have "c = drop (Suc n) s"
      using Suc.prems by (simp add: lineName_def Let_def)
    with True show ?thesis by (intro exI [of _ "Suc n"]) simp
  next
    case False
    then have "captureAfterSpaces n s = Some c"
      using Suc.prems by (auto simp: lineName_def Let_def)
    then obtain k where "1 \<le> k" "k \<le> n" "c = drop k s" "lineName c"
      using Suc.IH by blast
    then show ?thesis by (intro exI [of _ k]) simp
  qed
qed

lemma captureAfterSpaces_None:
  "captureAfterSpaces n s = None \<Longrightarrow> 1 \<le> k \<Longrightarrow> k \<le> n \<Longrightarrow> \<not> lineName (drop k s)"
proof (induction n)
  case 0
  then show ?case by simp
next
  case (Suc n)
  have no: "\<not> lineName (drop (Suc n) s)" and rest: "captureAfterSpaces n s = None"
    using Suc.prems(1) by (auto simp: lineName_def Let_def split: if_splits)
  show ?case
  proof (cases "k = Suc n")
    case True
    with no show ?thesis by simp
  next
    case False
    with Suc.prems have "k \<le> n" by simp
    with Suc.IH rest Suc.prems(2) show ?thesis by simp
  qed
qed

lemma matchSpacesName_iff:
  "(matchSpacesName s \<noteq> None) =
     list_ex (\<lambda>k. list_all isWhiteSpace (take k s) \<and> lineName (drop k s)) [1 ..< Suc (length s)]"
proof
  assume "matchSpacesName s \<noteq> None"
  then obtain c where "captureAfterSpaces (length (takeWhile isWhiteSpace s)) s = Some c"
    by (auto simp: matchSpacesName_def)
  then obtain k where k: "1 \<le> k" "k \<le> length (takeWhile isWhiteSpace s)" "lineName (drop k s)"
    using captureAfterSpaces_Some by blast
  have "k \<le> length s"
    using k(2) length_takeWhile_le [of isWhiteSpace s] by simp
  then have "list_all isWhiteSpace (take k s)"
    using k(2) by (simp add: all_take_takeWhile)
  with k \<open>k \<le> length s\<close>
  show "list_ex (\<lambda>k. list_all isWhiteSpace (take k s) \<and> lineName (drop k s)) [1 ..< Suc (length s)]"
    unfolding list_ex_iff by (intro bexI [of _ k]) auto
next
  assume "list_ex (\<lambda>k. list_all isWhiteSpace (take k s) \<and> lineName (drop k s)) [1 ..< Suc (length s)]"
  then obtain k where k: "1 \<le> k" "k \<le> length s" "list_all isWhiteSpace (take k s)"
      "lineName (drop k s)"
    unfolding list_ex_iff by auto
  then have "k \<le> length (takeWhile isWhiteSpace s)"
    by (simp add: all_take_takeWhile)
  then show "matchSpacesName s \<noteq> None"
    using captureAfterSpaces_None [of "length (takeWhile isWhiteSpace s)" s k] k(1,4)
    by (auto simp: matchSpacesName_def)
qed

lemma matchSpacesName_trim:
  assumes "matchSpacesName s = Some c"
  shows "trim c = trim s"
proof -
  obtain k where k: "k \<le> length (takeWhile isWhiteSpace s)" "c = drop k s"
    using assms captureAfterSpaces_Some unfolding matchSpacesName_def by blast
  have "k \<le> length s"
    using k(1) length_takeWhile_le [of isWhiteSpace s] by simp
  then have "list_all isWhiteSpace (take k s)"
    using k(1) by (simp add: all_take_takeWhile)
  then show ?thesis
    using k(2) by (simp add: trim_drop_spaces)
qed

lemma matchVendorLine_rule:
  "map_option (\<lambda>(a, b). (toLowerCase a, trim b)) (matchVendorLine line) = tokenAndName lineName line"
proof -
  define rest where "rest = drop 4 line"
  define E where "E = list_ex (\<lambda>k. list_all isWhiteSpace (take k rest) \<and> lineName (drop k rest))
                        [1 ..< Suc (length rest)]"
  have spec: "tokenAndName lineName line =
      (if length (take 4 line) = 4 \<and> list_all isHexDigit (take 4 line) \<and> E
       then Some (toLowerCase (take 4 line), trim rest) else None)"
    unfolding tokenAndName_def Let_def E_def rest_def by (rule refl)
  have code: "matchVendorLine line =
      (if length (take 4 line) = 4 \<and> list_all isHexDigit (take 4 line)
       then map_option (\<lambda>n. (take 4 line, n)) (matchSpacesName rest) else None)"
    unfolding matchVendorLine_def rest_def by (rule refl)
  have E: "(matchSpacesName rest \<noteq> None) = E"
    unfolding E_def by (rule matchSpacesName_iff)
  show ?thesis
  proof (cases "matchSpacesName rest")
    case None
    with E have "\<not> E" by simp
    with None show ?thesis unfolding spec code by simp
  next
    case (Some c)
    with E have E by simp
    moreover have "trim c = trim rest" using Some by (rule matchSpacesName_trim)
    ultimately show ?thesis unfolding spec code using Some by simp
  qed
qed


lemma databaseOf_Cons:
  "databaseOf ((vi, vn, ps) # secs) = (databaseOf secs)(vi \<mapsto> \<lparr>name = vn, devices = map_of ps\<rparr>)"
  by (simp add: databaseOf_def)

lemma tokenAndName_id_nonempty: "tokenAndName okName s = Some (i, n) \<Longrightarrow> i \<noteq> []"
  by (auto simp: tokenAndName_def Let_def toLowerCase_def split: if_splits)

lemma addLine_ids_ok: "sectionIdsOk secs \<Longrightarrow> sectionIdsOk (addLine okName line secs)"
proof (cases "classify okName line")
  case None
  assume "sectionIdsOk secs"
  with None show ?thesis by (simp add: addLine_def)
next
  case (Some e)
  assume ok: "sectionIdsOk secs"
  show ?thesis
  proof (cases e)
    case (VendorLine i n)
    with Some have "i \<noteq> []"
      by (auto simp: classify_def split: if_splits dest: tokenAndName_id_nonempty)
    with ok Some VendorLine show ?thesis
      by (simp add: addLine_def sectionIdsOk_def)
  next
    case (ProductLine i n)
    with ok Some show ?thesis
      by (cases secs) (auto simp: addLine_def sectionIdsOk_def)
  qed
qed

lemma charAt_0: "(charAt line 0 = Some c) = (take 1 line = [c])"
  by (cases line) (simp_all add: charAt_def)

lemma charAt_1_tab:
  "take 1 line = [CHR 0x09] \<Longrightarrow>
   (charAt line 1 = Some (CHR 0x09)) = (take 2 line = [CHR 0x09, CHR 0x09])"
proof (cases line)
  case Nil
  then show ?thesis by (simp add: charAt_def)
next
  case (Cons a rest)
  assume "take 1 line = [CHR 0x09]"
  with Cons show ?thesis by (cases rest) (simp_all add: charAt_def)
qed

lemma matchDeviceLine_rule:
  "take 1 line = [CHR 0x09] \<Longrightarrow>
   map_option (\<lambda>(a, b). (toLowerCase a, trim b)) (matchDeviceLine line)
     = tokenAndName lineName (tl line)"
  by (cases line) (simp_all add: matchDeviceLine_def matchVendorLine_rule)

lemma loaderStep_sections:
  assumes ok: "sectionIdsOk secs"
  shows "loaderStep line (sectionsState secs) = sectionsState (addLine lineName line secs)"
proof (cases "startsWithHash line \<or> list_all isWhiteSpace line")
  case True
  then show ?thesis
    by (auto simp: loaderStep_def addLine_def classify_def trim_blank)
next
  case skip: False
  show ?thesis
  proof (cases "take 1 line = [CHR 0x09]")
    case False
    then have c0: "charAt line 0 \<noteq> Some (CHR 0x09)" by (simp add: charAt_0)
    have t2: "take 2 line \<noteq> [CHR 0x09, CHR 0x09]"
      using False by (cases line) auto
    show ?thesis
    proof (cases "matchVendorLine line")
      case None
      then have "tokenAndName lineName line = None"
        using matchVendorLine_rule [of line] by simp
      with None skip c0 t2 False show ?thesis
        by (simp add: loaderStep_def addLine_def classify_def trim_blank)
    next
      case (Some m)
      obtain m1 m2 where m: "m = (m1, m2)" by (cases m)
      have "tokenAndName lineName line = Some (toLowerCase m1, trim m2)"
        using matchVendorLine_rule [of line] Some m by simp
      with Some m skip c0 t2 False show ?thesis
        by (simp add: loaderStep_def addLine_def classify_def trim_blank sectionsState_def
            databaseOf_Cons)
    qed
  next
    case True
    then have c0: "charAt line 0 = Some (CHR 0x09)" by (simp add: charAt_0)
    show ?thesis
    proof (cases "take 2 line = [CHR 0x09, CHR 0x09]")
      case two: True
      then have "charAt line 1 = Some (CHR 0x09)"
        using charAt_1_tab [OF True] by simp
      with two skip c0 show ?thesis
        by (simp add: loaderStep_def addLine_def classify_def trim_blank)
    next
      case one: False
      then have c1: "charAt line 1 \<noteq> Some (CHR 0x09)"
        using charAt_1_tab [OF True] by simp
      show ?thesis
      proof (cases "matchDeviceLine line")
        case None
        then have "tokenAndName lineName (tl line) = None"
          using matchDeviceLine_rule [OF True] by simp
        with None skip c0 c1 one True show ?thesis
          by (simp add: loaderStep_def addLine_def classify_def trim_blank)
      next
        case (Some m)
        obtain m1 m2 where m: "m = (m1, m2)" by (cases m)
        have tn: "tokenAndName lineName (tl line) = Some (toLowerCase m1, trim m2)"
          using matchDeviceLine_rule [OF True] Some m by simp
        show ?thesis
        proof (cases secs)
          case Nil
          with Some m tn skip c0 c1 one True show ?thesis
            by (simp add: loaderStep_def addLine_def classify_def trim_blank sectionsState_def)
        next
          case (Cons sec rest)
          obtain vi vn ps where sec: "sec = (vi, vn, ps)" by (cases sec)
          have "vi \<noteq> []" using ok Cons sec by (simp add: sectionIdsOk_def)
          with Cons sec Some m tn skip c0 c1 one True show ?thesis
            by (simp add: loaderStep_def addLine_def classify_def trim_blank sectionsState_def
                databaseOf_Cons)
        qed
      qed
    qed
  qed
qed

lemma fold_loaderStep_sections:
  "sectionIdsOk secs \<Longrightarrow>
   fold loaderStep ls (sectionsState secs) = sectionsState (fold (addLine lineName) ls secs)"
proof (induction ls arbitrary: secs)
  case Nil
  show ?case by simp
next
  case (Cons l ls)
  show ?case
    using Cons.IH [OF addLine_ids_ok [OF Cons.prems]] loaderStep_sections [OF Cons.prems]
    by simp
qed


text \<open>
  In every state of the loader's loop a current vendor is a non-empty
  identifier that is a key of the mapping, so the assignment to
  \<open>vendors[currentVendor].devices\<close> never reads a missing vendor.
\<close>

lemma fold_addLine_ids_ok:
  "sectionIdsOk secs \<Longrightarrow> sectionIdsOk (fold (addLine okName) ls secs)"
  by (induction ls arbitrary: secs) (simp_all add: addLine_ids_ok)

lemma loader_current_in_vendors:
  assumes "st = fold loaderStep ls \<lparr>vendors = Map.empty, currentVendor = None\<rparr>"
    and "currentVendor st = Some cv"
  shows "cv \<noteq> [] \<and> vendors st cv \<noteq> None"
proof -
  let ?secs = "fold (addLine lineName) ls []"
  have ok0: "sectionIdsOk []" by (simp add: sectionIdsOk_def)
  have s0: "\<lparr>vendors = Map.empty, currentVendor = None\<rparr> = sectionsState []"
    by (simp add: sectionsState_def databaseOf_def)
  have st: "st = sectionsState ?secs"
    unfolding assms(1) s0 using ok0 by (rule fold_loaderStep_sections)
  have ok: "sectionIdsOk ?secs" using ok0 by (rule fold_addLine_ids_ok)
  show ?thesis
  proof (cases ?secs)
    case Nil
    with st assms(2) show ?thesis by (simp add: sectionsState_def)
  next
    case (Cons sec rest)
    obtain vi vn ps where sec: "sec = (vi, vn, ps)" by (cases sec)
    have "vi \<noteq> []" using ok Cons sec by (simp add: sectionIdsOk_def)
    moreover have "cv = vi" using st assms(2) Cons sec by (simp add: sectionsState_def)
    ultimately show ?thesis
      unfolding st sectionsState_def Cons sec databaseOf_Cons by simp
  qed
qed
















end
